theory Spec2Isabelle
  imports Complex_Main "HOL-Library.Word"
begin

section \<open>HashAB signatures for the iPod database: a model of hashAB.js\<close>

text \<open>
  The module under study (the second document of \<^verbatim>\<open>src/modules/state.js\<close>) patches the
  HashAB signature of an iTunesCDB buffer (\<^verbatim>\<open>recomputeITunesCDBHash\<close>), builds the
  companion file Locations.itdb.cbk (\<^verbatim>\<open>computeLocationsCBK\<close>) and parses the FirewireGuid
  string of the device (\<^verbatim>\<open>parseUUID\<close>).

  A \<^verbatim>\<open>Uint8Array\<close> is a list of bytes living at a reference of an explicit heap, so that
  writing in place, copying and allocating are different things in the model as they are in
  JavaScript. The two capabilities the module only calls, \<^verbatim>\<open>crypto.subtle.digest\<close> and the
  exports of calcHashAB.wasm, are parameters. The functions are first modelled as running
  in one step, every \<^verbatim>\<open>await\<close> resuming with nobody else having run in between;
  \<^verbatim>\<open>recomputeITunesCDBHash\<close> is then modelled a second time with what other tasks do while
  it is suspended at \<^verbatim>\<open>await sha1(buf)\<close>, where the completion of \<^verbatim>\<open>initHashAB\<close> can
  fall.
\<close>

subsection \<open>Bytes and typed arrays\<close>

type_synonym byte = "8 word"

text \<open>The errors that the module can throw: the one of \<^verbatim>\<open>calcHashAB\<close> without an instance,
  the RangeError of \<^verbatim>\<open>set\<close>, and a rejection while the WebAssembly module is fetched or
  instantiated.\<close>

datatype js_error = NotInitialized | RangeError | LoadError

text \<open>\<^verbatim>\<open>new Uint8Array(n)\<close>: n zero bytes.\<close>

definition Uint8Array_new :: "nat \<Rightarrow> byte list" where
  "Uint8Array_new n = replicate n 0"

text \<open>\<^verbatim>\<open>a.fill(v, start, end)\<close>: the indices from start up to end (and below the length)
  receive v.\<close>

definition Uint8Array_fill :: "byte list \<Rightarrow> byte \<Rightarrow> nat \<Rightarrow> nat \<Rightarrow> byte list" where
  "Uint8Array_fill a v start end =
     map (\<lambda>k. if start \<le> k \<and> k < end then v else a ! k) [0..<length a]"

text \<open>\<^verbatim>\<open>a.set(src, offset)\<close>: a RangeError when src does not fit at offset, else the
  bytes of src overwrite those of a from offset on.\<close>

definition Uint8Array_set :: "byte list \<Rightarrow> byte list \<Rightarrow> nat \<Rightarrow> js_error + byte list" where
  "Uint8Array_set a src offset =
     (if length src + offset > length a then Inl RangeError
      else Inr (take offset a @ src @ drop (offset + length src) a))"

text \<open>\<^verbatim>\<open>a.slice(start, end)\<close> for non-negative bounds: both are clamped to the length, and
  an end before the start gives the empty array.\<close>

definition Uint8Array_slice :: "byte list \<Rightarrow> nat \<Rightarrow> nat \<Rightarrow> byte list" where
  "Uint8Array_slice a start end = take (end - start) (drop start a)"

subsection \<open>parseUUID\<close>

text \<open>
  A JavaScript string is modelled by a \<^typ>\<open>string\<close>, one character per code unit (so the
  code units are those below 256). Of the white space that \<^verbatim>\<open>parseInt\<close> skips, these are
  TAB, LF, VT, FF, CR, SP and NBSP.
\<close>

definition isStrWhiteSpaceChar :: "char \<Rightarrow> bool" where
  "isStrWhiteSpaceChar c = (of_char c \<in> {9, 10, 11, 12, 13, 32, 160 :: nat})"

definition radix16_digit :: "char \<Rightarrow> nat option" where
  "radix16_digit c =
     (let n = (of_char c :: nat) in
      if 48 \<le> n \<and> n \<le> 57 then Some (n - 48)
      else if 97 \<le> n \<and> n \<le> 102 then Some (n - 87)
      else if 65 \<le> n \<and> n \<le> 70 then Some (n - 55)
      else None)"

definition is_radix16_digit :: "char \<Rightarrow> bool" where
  "is_radix16_digit c = (radix16_digit c \<noteq> None)"

text \<open>\<^verbatim>\<open>parseInt(str, 16)\<close> after ECMAScript: skip leading white space, read a sign, skip
  one \<^verbatim>\<open>0x\<close> or \<^verbatim>\<open>0X\<close>, then take the longest run of hexadecimal digits. No digit at all
  gives NaN, which is \<^term>\<open>None\<close> here.\<close>

definition parseInt16 :: "string \<Rightarrow> int option" where
  "parseInt16 str =
     (let S = dropWhile isStrWhiteSpaceChar str;
          sign = (if S \<noteq> [] \<and> hd S = CHR ''-'' then - 1 else 1 :: int);
          S1 = (if S \<noteq> [] \<and> (hd S = CHR ''+'' \<or> hd S = CHR ''-'') then tl S else S);
          S2 = (if 2 \<le> length S1 \<and> (take 2 S1 = ''0x'' \<or> take 2 S1 = ''0X'')
                then drop 2 S1 else S1);
          Z = takeWhile is_radix16_digit S2
      in if Z = [] then None
         else Some (sign * int (foldl (\<lambda>acc c. 16 * acc + the (radix16_digit c)) 0 Z)))"

text \<open>Storing a number into a \<^verbatim>\<open>Uint8Array\<close> element: NaN becomes 0, an integer is taken
  modulo 256.\<close>

fun ToUint8 :: "int option \<Rightarrow> byte" where
  "ToUint8 None = 0"
| "ToUint8 (Some n) = word_of_int n"

text \<open>\<^verbatim>\<open>str.substr(start, length)\<close> for non-negative arguments.\<close>

definition String_substr :: "string \<Rightarrow> nat \<Rightarrow> nat \<Rightarrow> string" where
  "String_substr str start len = take len (drop start str)"

text \<open>\<^verbatim>\<open>guidStr.replace(/^0x/i, '')\<close>: a leading 0 followed by x or X is removed, once.\<close>

fun replace_0x :: "string \<Rightarrow> string" where
  "replace_0x (c0 # c1 # rest) =
     (if c0 = CHR ''0'' \<and> (c1 = CHR ''x'' \<or> c1 = CHR ''X'') then rest else c0 # c1 # rest)"
| "replace_0x str = str"

text \<open>The loop \<^verbatim>\<open>for (let i = 0; i < 8; i++) bytes[i] = parseInt(hex.substr(i * 2, 2), 16)\<close>.\<close>

function parseUUID_loop :: "string \<Rightarrow> nat \<Rightarrow> byte list \<Rightarrow> byte list" where
  "parseUUID_loop hex i bytes =
     (if i < 8
      then parseUUID_loop hex (Suc i) (bytes[i := ToUint8 (parseInt16 (String_substr hex (i * 2) 2))])
      else bytes)"
  by pat_completeness auto
termination
  by (relation "measure (\<lambda>(hex, i, bytes). 8 - i)") auto

text \<open>The result is the content of the array that \<^verbatim>\<open>parseUUID\<close> creates and returns.\<close>

definition parseUUID :: "string \<Rightarrow> byte list" where
  "parseUUID guidStr =
     (let hex = replace_0x guidStr;
          bytes = Uint8Array_new 8
      in parseUUID_loop hex 0 bytes)"

subsection \<open>The heap, the console and the WebAssembly instance\<close>

text \<open>
  A reference to a \<^verbatim>\<open>Uint8Array\<close> is its index in the list of all arrays created so far.
  Allocation appends, so a reference that is at least the length of an earlier heap is an
  array created after it.
\<close>

datatype console_entry = Warn string | Log string

text \<open>
  The exports of calcHashAB.wasm that \<^verbatim>\<open>calcHashAB\<close> uses. The three getters return fixed
  addresses into the linear memory; \<^verbatim>\<open>calculateHash\<close> takes the memory to the memory it
  leaves behind.
\<close>

record wasm_exports =
  getInputSha1 :: nat
  getInputUuid :: nat
  getOutput :: nat
  calculateHash :: "byte list \<Rightarrow> byte list"
  memory :: "byte list"

record world =
  heap :: "byte list list"
  wasmInstance :: "wasm_exports option"
  console :: "console_entry list"

definition alloc :: "byte list \<Rightarrow> world \<Rightarrow> nat \<times> world" where
  "alloc bytes w = (length (heap w), w\<lparr>heap := heap w @ [bytes]\<rparr>)"

definition deref :: "world \<Rightarrow> nat \<Rightarrow> byte list" where
  "deref w r = heap w ! r"

definition assign :: "nat \<Rightarrow> byte list \<Rightarrow> world \<Rightarrow> world" where
  "assign r bytes w = w\<lparr>heap := (heap w)[r := bytes]\<rparr>"

definition console_warn :: "string \<Rightarrow> world \<Rightarrow> world" where
  "console_warn msg w = w\<lparr>console := console w @ [Warn msg]\<rparr>"

definition console_log :: "string \<Rightarrow> world \<Rightarrow> world" where
  "console_log msg w = w\<lparr>console := console w @ [Log msg]\<rparr>"

text \<open>\<^verbatim>\<open>initHashAB\<close>: nothing happens when an instance is there already; else the module is
  fetched and instantiated (the argument: the instance obtained, or the rejection) and
  the instance is stored.\<close>

definition initHashAB :: "js_error + wasm_exports \<Rightarrow> world \<Rightarrow> (js_error + unit) \<times> world" where
  "initHashAB instantiated w =
     (case wasmInstance w of
        Some inst \<Rightarrow> (Inr (), w)
      | None \<Rightarrow>
         (case instantiated of
            Inl e \<Rightarrow> (Inl e, w)
          | Inr obtained \<Rightarrow> (Inr (), w\<lparr>wasmInstance := Some obtained\<rparr>)))"

text \<open>\<^verbatim>\<open>calcHashAB(sha1, uuid)\<close>: the two inputs are copied into the linear memory,
  \<^verbatim>\<open>calculateHash\<close> runs, and 57 bytes from the output address are copied out, twice
  (\<^verbatim>\<open>slice\<close>, then \<^verbatim>\<open>new Uint8Array\<close>).\<close>

definition calcHashAB :: "nat \<Rightarrow> nat \<Rightarrow> world \<Rightarrow> (js_error + nat) \<times> world" where
  "calcHashAB sha1v uuid w =
     (case wasmInstance w of
        None \<Rightarrow> (Inl NotInitialized, w)
      | Some inst \<Rightarrow>
          let sha1Ptr = getInputSha1 inst;
              uuidPtr = getInputUuid inst;
              outputPtr = getOutput inst
          in (case Uint8Array_set (memory inst) (deref w sha1v) sha1Ptr of
                Inl e \<Rightarrow> (Inl e, w)
              | Inr mem1 \<Rightarrow>
                 (case Uint8Array_set mem1 (deref w uuid) uuidPtr of
                    Inl e \<Rightarrow> (Inl e, w\<lparr>wasmInstance := Some (inst\<lparr>memory := mem1\<rparr>)\<rparr>)
                  | Inr mem2 \<Rightarrow>
                      let mem3 = calculateHash inst mem2;
                          w1 = w\<lparr>wasmInstance := Some (inst\<lparr>memory := mem3\<rparr>)\<rparr>;
                          (sliced, w2) = alloc (Uint8Array_slice mem3 outputPtr (outputPtr + 57)) w1
                      in (case alloc (deref w2 sliced) w2 of
                            (result, w3) \<Rightarrow> (Inr result, w3)))))"

text \<open>\<^verbatim>\<open>sha1(data)\<close>: a new array holding the digest that \<^verbatim>\<open>crypto.subtle.digest\<close>
  computes of the bytes of data.\<close>

definition sha1 :: "(byte list \<Rightarrow> byte list) \<Rightarrow> nat \<Rightarrow> world \<Rightarrow> nat \<times> world" where
  "sha1 subtle_digest data w = alloc (subtle_digest (deref w data)) w"

text \<open>\<^verbatim>\<open>hex(bytes)\<close>: two lower-case hexadecimal digits per byte.\<close>

definition hex_digit :: "nat \<Rightarrow> char" where
  "hex_digit n = (if n < 10 then char_of (48 + n) else char_of (87 + n))"

definition hex :: "byte list \<Rightarrow> string" where
  "hex bytes = concat (map (\<lambda>b. [hex_digit (unat b div 16), hex_digit (unat b mod 16)]) bytes)"

text \<open>A non-negative integer in a template string: its decimal digits.\<close>

function decimal :: "nat \<Rightarrow> string" where
  "decimal n = (if n < 10 then [char_of (48 + n)] else decimal (n div 10) @ [char_of (48 + n mod 10)])"
  by pat_completeness auto
termination
  by (relation "measure (\<lambda>n. n)") auto

definition String_fromCharCode :: "byte list \<Rightarrow> string" where
  "String_fromCharCode codes = map (\<lambda>b. char_of (unat b)) codes"

subsection \<open>recomputeITunesCDBHash\<close>

definition MHBD_DB_ID_OFFSET :: nat where "MHBD_DB_ID_OFFSET = 0x18"
definition MHBD_DB_ID_LEN :: nat where "MHBD_DB_ID_LEN = 8"
definition MHBD_HASH58_OFFSET :: nat where "MHBD_HASH58_OFFSET = 0x58"
definition MHBD_HASH58_LEN :: nat where "MHBD_HASH58_LEN = 20"
definition MHBD_HASH72_OFFSET :: nat where "MHBD_HASH72_OFFSET = 0x72"
definition MHBD_HASH72_LEN :: nat where "MHBD_HASH72_LEN = 46"
definition MHBD_HASHAB_OFFSET :: nat where "MHBD_HASHAB_OFFSET = 0xAB"
definition MHBD_HASHAB_LEN :: nat where "MHBD_HASHAB_LEN = 57"
definition MHBD_SCHEME_OFFSET :: nat where "MHBD_SCHEME_OFFSET = 0x30"

text \<open>The working copy with the four fields zeroed (the four \<^verbatim>\<open>buf.fill\<close> calls).\<close>

definition zero_fields :: "byte list \<Rightarrow> byte list" where
  "zero_fields buf =
     (let buf1 = Uint8Array_fill buf 0 MHBD_DB_ID_OFFSET (MHBD_DB_ID_OFFSET + MHBD_DB_ID_LEN);
          buf2 = Uint8Array_fill buf1 0 MHBD_HASH58_OFFSET (MHBD_HASH58_OFFSET + MHBD_HASH58_LEN);
          buf3 = Uint8Array_fill buf2 0 MHBD_HASH72_OFFSET (MHBD_HASH72_OFFSET + MHBD_HASH72_LEN)
      in Uint8Array_fill buf3 0 MHBD_HASHAB_OFFSET (MHBD_HASHAB_OFFSET + MHBD_HASHAB_LEN))"

text \<open>
  The result is the value returned (the reference of the buffer given) or the error thrown,
  with the world as the call leaves it: what was written before a throw stays written.
\<close>

definition recomputeITunesCDBHash ::
  "(byte list \<Rightarrow> byte list) \<Rightarrow> nat \<Rightarrow> nat \<Rightarrow> world \<Rightarrow> (js_error + nat) \<times> world" where
  "recomputeITunesCDBHash subtle_digest data uuid w =
     (if length (deref w data) < 0xAB + 57
      then (Inr data, console_warn ''[hashAB] iTunesCDB too small for hashAB recomputation'' w)
      else
        let magic = String_fromCharCode
              [deref w data ! 0, deref w data ! 1, deref w data ! 2, deref w data ! 3]
        in if magic \<noteq> ''mhbd''
           then (Inr data, console_warn ''[hashAB] iTunesCDB does not start with mhbd'' w)
           else
             let w1 = assign data ((deref w data)[MHBD_SCHEME_OFFSET := 0x03]) w;
                 w2 = assign data ((deref w1 data)[MHBD_SCHEME_OFFSET + 1 := 0x00]) w1;
                 (buf, w3) = alloc (deref w2 data) w2;
                 w4 = assign buf (zero_fields (deref w3 buf)) w3;
                 (sha1Hash, w5) = sha1 subtle_digest buf w4
             in (case calcHashAB sha1Hash uuid w5 of
                   (Inl e, w6) \<Rightarrow> (Inl e, w6)
                 | (Inr sig, w6) \<Rightarrow>
                    (case Uint8Array_set (deref w6 data) (deref w6 sig) MHBD_HASHAB_OFFSET of
                       Inl e \<Rightarrow> (Inl e, w6)
                     | Inr patched \<Rightarrow>
                         let w7 = assign data patched w6;
                             (sig4, w8) = alloc (Uint8Array_slice (deref w7 sig) 0 4) w7
                         in (Inr data,
                             console_log
                               (''[hashAB] Recomputed iTunesCDB hash (SHA1: '' @ hex (deref w8 sha1Hash)
                                @ '', sig[0:4]: '' @ hex (deref w8 sig4) @ '')'') w8))))"

subsection \<open>recomputeITunesCDBHash, suspended at its await\<close>

text \<open>
  The call is suspended once, at \<^verbatim>\<open>await sha1(buf)\<close> (line 181), and other tasks run
  before it resumes. Lines 169 to 178, which run before: the scheme field is written and
  the working copy is made and zeroed. The result is the reference of the copy.
\<close>

definition recomputeITunesCDBHash_prepare :: "nat \<Rightarrow> world \<Rightarrow> nat \<times> world" where
  "recomputeITunesCDBHash_prepare data w =
     (let w1 = assign data ((deref w data)[MHBD_SCHEME_OFFSET := 0x03]) w;
          w2 = assign data ((deref w1 data)[MHBD_SCHEME_OFFSET + 1 := 0x00]) w1;
          (buf, w3) = alloc (deref w2 data) w2;
          w4 = assign buf (zero_fields (deref w3 buf)) w3
      in (buf, w4))"

text \<open>Lines 184 to 190, which run after the digest has arrived: \<^verbatim>\<open>calcHashAB\<close>, where the
  instance is looked at, the patch of the signature and the log.\<close>

definition recomputeITunesCDBHash_finish ::
  "nat \<Rightarrow> nat \<Rightarrow> nat \<Rightarrow> world \<Rightarrow> (js_error + nat) \<times> world" where
  "recomputeITunesCDBHash_finish data uuid sha1Hash w5 =
     (case calcHashAB sha1Hash uuid w5 of
        (Inl e, w6) \<Rightarrow> (Inl e, w6)
      | (Inr sig, w6) \<Rightarrow>
         (case Uint8Array_set (deref w6 data) (deref w6 sig) MHBD_HASHAB_OFFSET of
            Inl e \<Rightarrow> (Inl e, w6)
          | Inr patched \<Rightarrow>
              let w7 = assign data patched w6;
                  (sig4, w8) = alloc (Uint8Array_slice (deref w7 sig) 0 4) w7
              in (Inr data,
                  console_log
                    (''[hashAB] Recomputed iTunesCDB hash (SHA1: '' @ hex (deref w8 sha1Hash)
                     @ '', sig[0:4]: '' @ hex (deref w8 sig4) @ '')'') w8)))"

text \<open>
  The whole call, with \<open>during\<close> for what the other tasks do to the world while the call
  is suspended (the completion of \<^verbatim>\<open>initHashAB\<close>, for one). The digest is that of the bytes
  the copy holds when \<^verbatim>\<open>crypto.subtle.digest\<close> is called; the array that holds it is created
  when the call resumes.
\<close>

definition recomputeITunesCDBHash_async ::
  "(byte list \<Rightarrow> byte list) \<Rightarrow> (world \<Rightarrow> world) \<Rightarrow> nat \<Rightarrow> nat \<Rightarrow> world
    \<Rightarrow> (js_error + nat) \<times> world" where
  "recomputeITunesCDBHash_async subtle_digest during data uuid w =
     (if length (deref w data) < 0xAB + 57
      then (Inr data, console_warn ''[hashAB] iTunesCDB too small for hashAB recomputation'' w)
      else
        let magic = String_fromCharCode
              [deref w data ! 0, deref w data ! 1, deref w data ! 2, deref w data ! 3]
        in if magic \<noteq> ''mhbd''
           then (Inr data, console_warn ''[hashAB] iTunesCDB does not start with mhbd'' w)
           else
             let (buf, w4) = recomputeITunesCDBHash_prepare data w;
                 digest = subtle_digest (deref w4 buf);
                 resumed = during w4;
                 (sha1Hash, w5) = alloc digest resumed
             in recomputeITunesCDBHash_finish data uuid sha1Hash w5)"

subsection \<open>computeLocationsCBK\<close>

definition CBK_BLOCK_SIZE :: nat where "CBK_BLOCK_SIZE = 1024"
definition CBK_HEADER_SIZE :: nat where "CBK_HEADER_SIZE = 57"
definition CBK_SHA1_SIZE :: nat where "CBK_SHA1_SIZE = 20"

text \<open>\<^verbatim>\<open>Math.ceil(a / b)\<close> on two array lengths (the quotient of such numbers is exact
  enough for the ceiling to be the mathematical one).\<close>

definition Math_ceil_div :: "nat \<Rightarrow> nat \<Rightarrow> nat" where
  "Math_ceil_div a b = nat \<lceil>real a / real b\<rceil>"

text \<open>Lines 220 to 224: the block itself when it has 1024 bytes, else a new array of 1024
  zero bytes that receives the block at its start.\<close>

definition padBlock :: "nat \<Rightarrow> world \<Rightarrow> (js_error + nat) \<times> world" where
  "padBlock block w =
     (if length (deref w block) < CBK_BLOCK_SIZE
      then
        let (paddedBlock, w1) = alloc (Uint8Array_new CBK_BLOCK_SIZE) w
        in (case Uint8Array_set (deref w1 paddedBlock) (deref w1 block) 0 of
              Inl e \<Rightarrow> (Inl e, w1)
            | Inr padded \<Rightarrow> (Inr paddedBlock, assign paddedBlock padded w1))
      else (Inr block, w))"

text \<open>The body of the first loop at index i, up to the digest of the block: the reference
  of \<^verbatim>\<open>hash\<close>.\<close>

definition blockHash ::
  "(byte list \<Rightarrow> byte list) \<Rightarrow> nat \<Rightarrow> nat \<Rightarrow> world \<Rightarrow> (js_error + nat) \<times> world" where
  "blockHash subtle_digest locationsData i w =
     (let start = i * CBK_BLOCK_SIZE;
          end = min (start + CBK_BLOCK_SIZE) (length (deref w locationsData));
          (block, w1) = alloc (Uint8Array_slice (deref w locationsData) start end) w
      in (case padBlock block w1 of
            (Inl e, w2) \<Rightarrow> (Inl e, w2)
          | (Inr paddedBlock, w2) \<Rightarrow>
              (case sha1 subtle_digest paddedBlock w2 of (hash, w3) \<Rightarrow> (Inr hash, w3))))"

text \<open>The first loop, from index i on: \<^verbatim>\<open>blockHashes\<close> is the JavaScript array of the
  digests pushed so far, each a reference.\<close>

function blockHashes_loop ::
  "(byte list \<Rightarrow> byte list) \<Rightarrow> nat \<Rightarrow> nat \<Rightarrow> nat \<Rightarrow> nat list \<Rightarrow> world
    \<Rightarrow> (js_error + nat list) \<times> world" where
  "blockHashes_loop subtle_digest locationsData numBlocks i blockHashes w =
     (if i < numBlocks
      then
        (case blockHash subtle_digest locationsData i w of
           (Inl e, w1) \<Rightarrow> (Inl e, w1)
         | (Inr hash, w1) \<Rightarrow>
             blockHashes_loop subtle_digest locationsData numBlocks (Suc i) (blockHashes @ [hash]) w1)
      else (Inr blockHashes, w))"
  by pat_completeness auto
termination
  by (relation "measure (\<lambda>(subtle_digest, locationsData, numBlocks, i, blockHashes, w). numBlocks - i)")
     auto

text \<open>The second loop, from index i on: \<^verbatim>\<open>allHashes.set(blockHashes[i], i * CBK_SHA1_SIZE)\<close>.\<close>

function allHashes_loop ::
  "nat \<Rightarrow> nat list \<Rightarrow> nat \<Rightarrow> nat \<Rightarrow> world \<Rightarrow> (js_error + unit) \<times> world" where
  "allHashes_loop allHashes blockHashes numBlocks i w =
     (if i < numBlocks
      then
        (case Uint8Array_set (deref w allHashes) (deref w (blockHashes ! i)) (i * CBK_SHA1_SIZE) of
           Inl e \<Rightarrow> (Inl e, w)
         | Inr written \<Rightarrow>
             allHashes_loop allHashes blockHashes numBlocks (Suc i) (assign allHashes written w))
      else (Inr (), w))"
  by pat_completeness auto
termination
  by (relation "measure (\<lambda>(allHashes, blockHashes, numBlocks, i, w). numBlocks - i)") auto

text \<open>The three \<^verbatim>\<open>cbk.set\<close> calls.\<close>

definition fill_cbk :: "nat \<Rightarrow> nat \<Rightarrow> nat \<Rightarrow> nat \<Rightarrow> world \<Rightarrow> (js_error + unit) \<times> world" where
  "fill_cbk cbk sig masterSha1 allHashes w =
     (case Uint8Array_set (deref w cbk) (deref w sig) 0 of
        Inl e \<Rightarrow> (Inl e, w)
      | Inr c1 \<Rightarrow>
          let w1 = assign cbk c1 w
          in (case Uint8Array_set (deref w1 cbk) (deref w1 masterSha1) CBK_HEADER_SIZE of
                Inl e \<Rightarrow> (Inl e, w1)
              | Inr c2 \<Rightarrow>
                  let w2 = assign cbk c2 w1
                  in (case Uint8Array_set (deref w2 cbk) (deref w2 allHashes)
                             (CBK_HEADER_SIZE + CBK_SHA1_SIZE) of
                        Inl e \<Rightarrow> (Inl e, w2)
                      | Inr c3 \<Rightarrow> (Inr (), assign cbk c3 w2))))"

definition computeLocationsCBK ::
  "(byte list \<Rightarrow> byte list) \<Rightarrow> nat \<Rightarrow> nat \<Rightarrow> world \<Rightarrow> (js_error + nat) \<times> world" where
  "computeLocationsCBK subtle_digest locationsData uuid w =
     (let numBlocks = Math_ceil_div (length (deref w locationsData)) CBK_BLOCK_SIZE
      in (case blockHashes_loop subtle_digest locationsData numBlocks 0 [] w of
            (Inl e, w1) \<Rightarrow> (Inl e, w1)
          | (Inr blockHashes, w1) \<Rightarrow>
              let (allHashes, w2) = alloc (Uint8Array_new (numBlocks * CBK_SHA1_SIZE)) w1
              in (case allHashes_loop allHashes blockHashes numBlocks 0 w2 of
                    (Inl e, w3) \<Rightarrow> (Inl e, w3)
                  | (Inr u, w3) \<Rightarrow>
                      let (masterSha1, w4) = sha1 subtle_digest allHashes w3
                      in (case calcHashAB masterSha1 uuid w4 of
                            (Inl e, w5) \<Rightarrow> (Inl e, w5)
                          | (Inr sig, w5) \<Rightarrow>
                              let cbkSize = CBK_HEADER_SIZE + CBK_SHA1_SIZE + numBlocks * CBK_SHA1_SIZE;
                                  (cbk, w6) = alloc (Uint8Array_new cbkSize) w5
                              in (case fill_cbk cbk sig masterSha1 allHashes w6 of
                                    (Inl e, w7) \<Rightarrow> (Inl e, w7)
                                  | (Inr u, w7) \<Rightarrow>
                                      let (sig4, w8) = alloc (Uint8Array_slice (deref w7 sig) 0 4) w7
                                      in (Inr cbk,
                                          console_log
                                            (''[hashAB] Computed Locations.itdb.cbk: '' @ decimal cbkSize
                                             @ '' bytes, '' @ decimal numBlocks
                                             @ '' blocks, master SHA1: '' @ hex (deref w8 masterSha1)
                                             @ '', sig[0:4]: '' @ hex (deref w8 sig4)) w8))))))"

subsection \<open>Notions used to state the properties\<close>

text \<open>The bytes of block i as they are handed to the digest: those of the source from
  \<open>i * 1024\<close> up to \<open>(i + 1) * 1024\<close> or the end, followed by zero bytes up to 1024 when
  the source ends before.\<close>

definition paddedBlock_bytes :: "byte list \<Rightarrow> nat \<Rightarrow> byte list" where
  "paddedBlock_bytes source i =
     (if (i + 1) * 1024 \<le> length source
      then Uint8Array_slice source (i * 1024) ((i + 1) * 1024)
      else Uint8Array_slice source (i * 1024) (length source)
             @ replicate ((i + 1) * 1024 - max (i * 1024) (length source)) 0)"

text \<open>
  Modelled from the spec: calcHashAB.wasm is not among the sources, and section 2 of the
  specification gives its contract: the SignatureEngine is a pure function without state,
  which "given a 20-byte digest and an 8-byte device identifier, deterministically
  produces a 57-byte signature". An instance computes the signature function H when its
  three regions lie inside the linear memory, the two input regions do not overlap, and
  \<^verbatim>\<open>calculateHash\<close> keeps the size of the memory and leaves in the output region the value
  of H at the contents of the two input regions.
\<close>

definition engine_computes :: "wasm_exports \<Rightarrow> (byte list \<Rightarrow> byte list \<Rightarrow> byte list) \<Rightarrow> bool" where
  "engine_computes inst H \<longleftrightarrow>
     getInputSha1 inst + 20 \<le> length (memory inst) \<and>
     getInputUuid inst + 8 \<le> length (memory inst) \<and>
     getOutput inst + 57 \<le> length (memory inst) \<and>
     (getInputSha1 inst + 20 \<le> getInputUuid inst \<or> getInputUuid inst + 8 \<le> getInputSha1 inst) \<and>
     (\<forall>m. length m = length (memory inst) \<longrightarrow>
        length (calculateHash inst m) = length (memory inst) \<and>
        Uint8Array_slice (calculateHash inst m) (getOutput inst) (getOutput inst + 57) =
          H (Uint8Array_slice m (getInputSha1 inst) (getInputSha1 inst + 20))
            (Uint8Array_slice m (getInputUuid inst) (getInputUuid inst + 8)))"

text \<open>The magic tag \<^verbatim>\<open>mhbd\<close> as bytes.\<close>

definition mhbd_magic :: "byte list" where
  "mhbd_magic = [0x6D, 0x68, 0x62, 0x64]"

subsection \<open>A small engine and digest for concrete runs\<close>

text \<open>
  The concrete runs below use an instance with 85 bytes of memory (digest at 0, device
  identifier at 20, output at 28) whose \<^verbatim>\<open>calculateHash\<close> writes 03 00, the digest and the
  identifier, zero-padded to 57 bytes, and a 20-byte stand-in for SHA-1 that ends with the
  sum of the bytes.
\<close>

definition example_signature :: "byte list \<Rightarrow> byte list \<Rightarrow> byte list" where
  "example_signature digest uuid = take 57 (3 # 0 # digest @ uuid @ replicate 57 0)"

definition example_instance :: wasm_exports where
  "example_instance =
     \<lparr>getInputSha1 = 0, getInputUuid = 20, getOutput = 28,
      calculateHash = (\<lambda>m. take 28 m @ example_signature (take 20 m) (take 8 (drop 20 m))),
      memory = replicate 85 0\<rparr>"

definition example_digest :: "byte list \<Rightarrow> byte list" where
  "example_digest bytes = replicate 19 0 @ [sum_list bytes]"

text \<open>A database buffer of 228 bytes, the magic followed by bytes 0x11, and a device
  identifier, at references 0 and 1 of a world with the engine ready and of a world where
  \<^verbatim>\<open>initHashAB\<close> has not run. A third world holds two buffers that are rejected: 228 zero
  bytes, and the magic alone.\<close>

definition example_mhbd :: "byte list" where
  "example_mhbd = mhbd_magic @ replicate 224 0x11"

definition example_uuid :: "byte list" where
  "example_uuid = [0x00, 0x0A, 0x27, 0x00, 0x24, 0x8F, 0x53, 0x08]"

definition example_world :: world where
  "example_world =
     \<lparr>heap = [example_mhbd, example_uuid], wasmInstance = Some example_instance, console = []\<rparr>"

definition example_world_uninitialized :: world where
  "example_world_uninitialized =
     \<lparr>heap = [example_mhbd, example_uuid], wasmInstance = None, console = []\<rparr>"

definition example_world_rejected :: world where
  "example_world_rejected =
     \<lparr>heap = [replicate 228 0, example_uuid, mhbd_magic], wasmInstance = None, console = []\<rparr>"

text \<open>What happens while a call is suspended, in two cases: \<^verbatim>\<open>initHashAB\<close>, started
  earlier, completes with the example instance; or it fails.\<close>

definition example_init_completes :: "world \<Rightarrow> world" where
  "example_init_completes w = snd (initHashAB (Inr example_instance) w)"

definition example_init_fails :: "world \<Rightarrow> world" where
  "example_init_fails w = snd (initHashAB (Inl LoadError) w)"

text \<open>A source of 1025 bytes 0x22 (two blocks, the second one byte long) at reference 0,
  the device identifier at 1 and an empty source at 2, with the engine ready.\<close>

definition example_locations :: "byte list" where
  "example_locations = replicate 1025 0x22"

definition example_world_locations :: world where
  "example_world_locations =
     \<lparr>heap = [example_locations, example_uuid, []], wasmInstance = Some example_instance,
      console = []\<rparr>"

section \<open>Properties\<close>

text \<open>The loops are unfolded one iteration at a time, by hand.\<close>

declare parseUUID_loop.simps [simp del]

declare decimal.simps [simp del]

declare blockHashes_loop.simps [simp del]

declare allHashes_loop.simps [simp del]

subsection \<open>Typed arrays\<close>

lemma Uint8Array_fill_length: "length (Uint8Array_fill a v s e) = length a"
  by (simp add: Uint8Array_fill_def)

lemma Uint8Array_fill_nth:
  "k < length a \<Longrightarrow> Uint8Array_fill a v s e ! k = (if s \<le> k \<and> k < e then v else a ! k)"
  by (simp add: Uint8Array_fill_def)

lemma zero_fields_length: "length (zero_fields a) = length a"
  by (simp add: zero_fields_def Uint8Array_fill_length)

lemma zero_fields_nth:
  "k < length a \<Longrightarrow> zero_fields a ! k =
     (if (0x18 \<le> k \<and> k < 0x18 + 8) \<or> (0x58 \<le> k \<and> k < 0x58 + 20) \<or>
         (0x72 \<le> k \<and> k < 0x72 + 46) \<or> (0xAB \<le> k \<and> k < 0xAB + 57) then 0 else a ! k)"
  by (simp add: zero_fields_def Uint8Array_fill_length Uint8Array_fill_nth
      MHBD_DB_ID_OFFSET_def MHBD_DB_ID_LEN_def MHBD_HASH58_OFFSET_def MHBD_HASH58_LEN_def
      MHBD_HASH72_OFFSET_def MHBD_HASH72_LEN_def MHBD_HASHAB_OFFSET_def MHBD_HASHAB_LEN_def)

lemma Uint8Array_set_Inr:
  "length src + off \<le> length a \<Longrightarrow>
   Uint8Array_set a src off = Inr (take off a @ src @ drop (off + length src) a)"
  by (simp add: Uint8Array_set_def)

lemma Uint8Array_set_length: "Uint8Array_set a src off = Inr b \<Longrightarrow> length b = length a"
  by (auto simp: Uint8Array_set_def split: if_splits)

lemma Uint8Array_set_nth:
  "Uint8Array_set a src off = Inr b \<Longrightarrow> k < length a \<Longrightarrow>
   b ! k = (if off \<le> k \<and> k < off + length src then src ! (k - off) else a ! k)"
  by (auto simp: Uint8Array_set_def nth_append split: if_splits)

lemma Uint8Array_set_fits:
  "Uint8Array_set a src off = Inr b \<Longrightarrow> length src + off \<le> length a"
  by (auto simp: Uint8Array_set_def split: if_splits)

lemma Uint8Array_slice_length:
  "length (Uint8Array_slice a s e) = min (e - s) (length a - s)"
  by (simp add: Uint8Array_slice_def)

lemma Uint8Array_slice_nth:
  "s + k < e \<Longrightarrow> s + k < length a \<Longrightarrow> Uint8Array_slice a s e ! k = a ! (s + k)"
  by (simp add: Uint8Array_slice_def)

lemma char_of_unat_eq:
  "char_of (unat (b :: byte)) = c \<longleftrightarrow> b = of_nat (of_char c)"
proof
  assume "char_of (unat b) = c"
  then have "of_char (char_of (unat b) :: char) = (of_char c :: nat)" by simp
  then have "unat b mod 256 = of_char c" by simp
  moreover have "unat b < 256" using unsigned_less[of b, where 'a = nat] by simp
  ultimately have "unat b = of_char c" by simp
  then have "of_nat (unat b) = (of_nat (of_char c) :: byte)" by simp
  then show "b = of_nat (of_char c)" by simp
next
  assume "b = of_nat (of_char c)"
  then have "unat b = of_char c mod 256" by (simp add: unat_of_nat)
  then show "char_of (unat b) = c" by (simp add: char_of_eq_iff take_bit_eq_mod)
qed

lemma magic_check:
  "String_fromCharCode [a, b, c, d] = ''mhbd'' \<longleftrightarrow> [a, b, c, d] = mhbd_magic"
  by (simp add: String_fromCharCode_def char_of_unat_eq mhbd_magic_def)

lemma take4_nth:
  "4 \<le> length xs \<Longrightarrow> [xs ! 0, xs ! 1, xs ! 2, xs ! 3] = take 4 xs"
  by (auto simp: numeral_eq_Suc Suc_le_length_iff)

subsection \<open>The device identifier\<close>

lemma parseUUID_loop_eq:
  "i \<le> 8 \<Longrightarrow> length bytes = 8 \<Longrightarrow>
   parseUUID_loop hx i bytes =
     take i bytes @ map (\<lambda>k. ToUint8 (parseInt16 (String_substr hx (k * 2) 2))) [i..<8]"
proof (induction hx i bytes rule: parseUUID_loop.induct)
  case (1 hx i bytes)
  show ?case
  proof (cases "i < 8")
    case True
    have "parseUUID_loop hx i bytes =
        parseUUID_loop hx (Suc i) (bytes[i := ToUint8 (parseInt16 (String_substr hx (i * 2) 2))])"
      using True by (subst parseUUID_loop.simps) simp
    also have "\<dots> = take (Suc i) (bytes[i := ToUint8 (parseInt16 (String_substr hx (i * 2) 2))])
        @ map (\<lambda>k. ToUint8 (parseInt16 (String_substr hx (k * 2) 2))) [Suc i..<8]"
      using True "1.prems" by (intro "1.IH") simp_all
    also have "\<dots> = take i bytes @ map (\<lambda>k. ToUint8 (parseInt16 (String_substr hx (k * 2) 2))) [i..<8]"
      using True "1.prems" by (simp add: take_Suc_conv_app_nth upt_conv_Cons)
    finally show ?thesis .
  next
    case False
    with "1.prems" have "i = 8" by simp
    then show ?thesis using "1.prems" by (subst parseUUID_loop.simps) simp
  qed
qed

lemma parseUUID_eq:
  "parseUUID guidStr = map (\<lambda>k. ToUint8 (parseInt16 (String_substr (replace_0x guidStr) (k * 2) 2))) [0..<8]"
  by (simp add: parseUUID_def Uint8Array_new_def parseUUID_loop_eq)

lemma radix16_digit_chars:
  "is_radix16_digit c \<Longrightarrow>
     \<not> isStrWhiteSpaceChar c \<and> c \<noteq> CHR ''+'' \<and> c \<noteq> CHR ''-'' \<and> c \<noteq> CHR ''x'' \<and> c \<noteq> CHR ''X''"
  by (auto simp: is_radix16_digit_def radix16_digit_def isStrWhiteSpaceChar_def Let_def split: if_splits)

lemma parseInt16_two:
  "is_radix16_digit c \<Longrightarrow> is_radix16_digit d \<Longrightarrow>
   parseInt16 [c, d] = Some (int (16 * the (radix16_digit c) + the (radix16_digit d)))"
  using radix16_digit_chars[of c] radix16_digit_chars[of d]
  by (simp add: parseInt16_def)

lemma parseInt16_one:
  "is_radix16_digit c \<Longrightarrow> parseInt16 [c] = Some (int (the (radix16_digit c)))"
  using radix16_digit_chars[of c]
  by (simp add: parseInt16_def)

lemma parseInt16_empty: "parseInt16 [] = None"
  by (simp add: parseInt16_def)

lemma replace_0x_hex:
  "list_all is_radix16_digit s \<Longrightarrow> replace_0x s = s"
  using radix16_digit_chars
  by (cases s rule: replace_0x.cases) auto

lemma substr_two: "m + 1 < length s \<Longrightarrow> String_substr s m 2 = [s ! m, s ! (m + 1)]"
proof -
  assume a: "m + 1 < length s"
  then have "drop m s = s ! m # s ! (Suc m) # drop (Suc (Suc m)) s"
    by (simp add: Cons_nth_drop_Suc Suc_lessD)
  then show ?thesis by (simp add: String_substr_def)
qed

lemma substr_one: "m + 1 = length s \<Longrightarrow> String_substr s m 2 = [s ! m]"
proof -
  assume a: "m + 1 = length s"
  then have "m < length s" by simp
  then have "drop m s = s ! m # drop (Suc m) s"
    by (rule Cons_nth_drop_Suc [symmetric])
  with a show ?thesis by (simp add: String_substr_def)
qed

lemma substr_none: "length s \<le> m \<Longrightarrow> String_substr s m 2 = []"
  by (simp add: String_substr_def)

lemma parseUUID_nth:
  assumes "list_all is_radix16_digit (replace_0x guidStr)" and "k < 8"
  shows "parseUUID guidStr ! k =
       (let hx = replace_0x guidStr in
        if 2 * k + 1 < length hx
        then word_of_nat (16 * the (radix16_digit (hx ! (2 * k))) + the (radix16_digit (hx ! (2 * k + 1))))
        else if 2 * k < length hx then word_of_nat (the (radix16_digit (hx ! (2 * k))))
        else 0)"
proof -
  let ?hx = "replace_0x guidStr"
  have dig: "\<And>j. j < length ?hx \<Longrightarrow> is_radix16_digit (?hx ! j)"
    using assms(1) by (simp add: list_all_length)
  have nth: "parseUUID guidStr ! k = ToUint8 (parseInt16 (String_substr ?hx (k * 2) 2))"
    using assms(2) by (simp add: parseUUID_eq)
  consider (two) "2 * k + 1 < length ?hx" | (one) "2 * k + 1 = length ?hx" | (none) "length ?hx \<le> 2 * k"
    by linarith
  then show ?thesis
  proof cases
    case two
    then have "String_substr ?hx (k * 2) 2 = [?hx ! (2 * k), ?hx ! (2 * k + 1)]"
      using substr_two[of "k * 2" ?hx] by (simp add: mult.commute)
    moreover have "is_radix16_digit (?hx ! (2 * k))" "is_radix16_digit (?hx ! (2 * k + 1))"
      using two dig by simp_all
    ultimately show ?thesis using two nth by (simp add: parseInt16_two Let_def)
  next
    case one
    then have "String_substr ?hx (k * 2) 2 = [?hx ! (2 * k)]"
      using substr_one[of "k * 2" ?hx] by (simp add: mult.commute)
    moreover have "is_radix16_digit (?hx ! (2 * k))"
      using one dig by simp
    ultimately show ?thesis using one nth by (simp add: parseInt16_one Let_def)
  next
    case none
    then have "String_substr ?hx (k * 2) 2 = []"
      using substr_none[of ?hx "k * 2"] by (simp add: mult.commute)
    then show ?thesis using none nth by (simp add: parseInt16_empty Let_def)
  qed
qed

text \<open>
  Claim C8. \<^verbatim>\<open>parseUUID\<close> removes an optional prefix \<^verbatim>\<open>0x\<close> or \<^verbatim>\<open>0X\<close> before decoding: the
  strings \<^verbatim>\<open>0x000A2700248F5308\<close> and \<^verbatim>\<open>000A2700248F5308\<close> both give the bytes
  00 0A 27 00 24 8F 53 08, and for every string s of 16 hexadecimal digits the prefixed
  string gives what s gives.
\<close>

theorem parseUUID_strips_0x_prefix:
  "parseUUID ''0x000A2700248F5308'' = [0x00, 0x0A, 0x27, 0x00, 0x24, 0x8F, 0x53, 0x08] \<and>
   parseUUID ''000A2700248F5308'' = [0x00, 0x0A, 0x27, 0x00, 0x24, 0x8F, 0x53, 0x08] \<and>
   (length s = 16 \<and> list_all is_radix16_digit s \<longrightarrow>
      parseUUID (''0x'' @ s) = parseUUID s \<and> parseUUID (''0X'' @ s) = parseUUID s)"
proof (intro conjI impI)
  show "parseUUID ''0x000A2700248F5308'' = [0x00, 0x0A, 0x27, 0x00, 0x24, 0x8F, 0x53, 0x08]"
    by code_simp
  show "parseUUID ''000A2700248F5308'' = [0x00, 0x0A, 0x27, 0x00, 0x24, 0x8F, 0x53, 0x08]"
    by code_simp
next
  assume "length s = 16 \<and> list_all is_radix16_digit s"
  then have s: "replace_0x s = s" by (simp add: replace_0x_hex)
  show "parseUUID (''0x'' @ s) = parseUUID s"
    by (simp add: parseUUID_eq s)
  show "parseUUID (''0X'' @ s) = parseUUID s"
    by (simp add: parseUUID_eq s)
qed

text \<open>The general part of C8 at the identifier of the specification.\<close>

theorem parseUUID_strips_0x_prefix_witness:
  "length ''000A2700248F5308'' = 16 \<and> list_all is_radix16_digit ''000A2700248F5308'' \<and>
   parseUUID (''0x'' @ ''000A2700248F5308'') = parseUUID ''000A2700248F5308'' \<and>
   parseUUID (''0X'' @ ''000A2700248F5308'') = parseUUID ''000A2700248F5308''"
  using parseUUID_strips_0x_prefix [of "''000A2700248F5308''"]
  by (simp add: is_radix16_digit_def radix16_digit_def)

text \<open>
  Claim C9 says that an identifier with fewer than 16 hexadecimal digits after the prefix
  is refused with an InvalidIdentifier error. \<^verbatim>\<open>parseUUID\<close> has no failing path: on
  \<^verbatim>\<open>0x12\<close> it returns eight bytes, the decoded 0x12 followed by zeros.
\<close>

theorem parseUUID_short_returns_counterexample:
  "length (replace_0x ''0x12'') < 16 \<and> list_all is_radix16_digit (replace_0x ''0x12'') \<and>
   parseUUID ''0x12'' = [0x12, 0, 0, 0, 0, 0, 0, 0]"
  by code_simp

text \<open>
  Claim C9, amended. For an identifier whose form after the prefix consists of fewer than
  16 hexadecimal digits, \<^verbatim>\<open>parseUUID\<close> does not fail: it returns 8 bytes, where byte k is
  the value of the digits 2k and 2k+1 when both exist, the value of the single digit 2k
  when it is the last one, and 0 from there on.
\<close>

theorem parseUUID_short_zero_pads:
  assumes "list_all is_radix16_digit (replace_0x guidStr)"
    and "length (replace_0x guidStr) < 16"
  shows "length (parseUUID guidStr) = 8 \<and>
    (\<forall>k<8. parseUUID guidStr ! k =
       (let hx = replace_0x guidStr in
        if 2 * k + 1 < length hx
        then word_of_nat (16 * the (radix16_digit (hx ! (2 * k))) + the (radix16_digit (hx ! (2 * k + 1))))
        else if 2 * k < length hx then word_of_nat (the (radix16_digit (hx ! (2 * k))))
        else 0))"
  using assms(1) by (simp add: parseUUID_nth) (simp add: parseUUID_eq)

text \<open>The amended C9 at \<^verbatim>\<open>0x12\<close>.\<close>

theorem parseUUID_short_zero_pads_witness:
  "list_all is_radix16_digit (replace_0x ''0x12'') \<and> length (replace_0x ''0x12'') < 16 \<and>
   length (parseUUID ''0x12'') = 8 \<and> parseUUID ''0x12'' ! 0 = 0x12 \<and> parseUUID ''0x12'' ! 1 = 0 \<and>
   parseUUID ''0x12'' ! 7 = 0"
proof -
  have h1: "list_all is_radix16_digit (replace_0x ''0x12'')"
    by (simp add: is_radix16_digit_def radix16_digit_def)
  have h2: "length (replace_0x ''0x12'') < 16" by simp
  from parseUUID_short_zero_pads [OF h1 h2] h1 h2 show ?thesis
    by (simp add: radix16_digit_def)
qed

subsection \<open>The signature engine\<close>

lemma slice_set_same:
  assumes "Uint8Array_set a src off = Inr b"
  shows "Uint8Array_slice b off (off + length src) = src"
proof -
  from assms have fit: "length src + off \<le> length a"
    and b: "b = take off a @ src @ drop (off + length src) a"
    by (auto simp: Uint8Array_set_def split: if_splits)
  show ?thesis using fit by (simp add: b Uint8Array_slice_def)
qed

lemma slice_set_other:
  assumes "Uint8Array_set a src off = Inr b"
    and "s + n \<le> off \<or> off + length src \<le> s"
  shows "Uint8Array_slice b s (s + n) = Uint8Array_slice a s (s + n)"
proof (rule nth_equalityI)
  have len: "length b = length a" using assms(1) by (rule Uint8Array_set_length)
  show "length (Uint8Array_slice b s (s + n)) = length (Uint8Array_slice a s (s + n))"
    by (simp add: Uint8Array_slice_length len)
  fix k assume "k < length (Uint8Array_slice b s (s + n))"
  then have k: "k < n" "s + k < length a" by (auto simp: Uint8Array_slice_length len)
  then have "b ! (s + k) = a ! (s + k)"
    using assms(2) by (auto simp: Uint8Array_set_nth [OF assms(1)])
  then show "Uint8Array_slice b s (s + n) ! k = Uint8Array_slice a s (s + n) ! k"
    using k by (simp add: Uint8Array_slice_nth len)
qed

lemma calcHashAB_frame:
  "calcHashAB s u w = (r, w') \<Longrightarrow> (\<exists>ys. heap w' = heap w @ ys) \<and> console w' = console w"
  by (auto simp: calcHashAB_def Let_def alloc_def split: option.splits sum.splits prod.splits)

lemma calcHashAB_result:
  "calcHashAB s u w = (Inr sig, w') \<Longrightarrow>
   length (heap w) \<le> sig \<and> sig < length (heap w') \<and> length (heap w' ! sig) \<le> 57"
  by (auto simp: calcHashAB_def Let_def alloc_def deref_def nth_append Uint8Array_slice_length
      split: option.splits sum.splits prod.splits)

lemma calcHashAB_uninitialized:
  "wasmInstance w = None \<Longrightarrow> calcHashAB s u w = (Inl NotInitialized, w)"
  by (simp add: calcHashAB_def)

lemma calcHashAB_ready:
  assumes inst: "wasmInstance w = Some inst"
    and eng: "engine_computes inst H"
    and ls: "length (deref w s) = 20"
    and lu: "length (deref w u) = 8"
  shows "\<exists>w' inst'. calcHashAB s u w = (Inr (Suc (length (heap w))), w') \<and>
           heap w' = heap w @ [H (deref w s) (deref w u), H (deref w s) (deref w u)] \<and>
           length (H (deref w s) (deref w u)) = 57 \<and>
           wasmInstance w' = Some inst' \<and> engine_computes inst' H \<and> console w' = console w"
proof -
  let ?p1 = "getInputSha1 inst" and ?p2 = "getInputUuid inst" and ?o = "getOutput inst"
  from eng have r1: "?p1 + 20 \<le> length (memory inst)" and r2: "?p2 + 8 \<le> length (memory inst)"
    and r3: "?o + 57 \<le> length (memory inst)"
    and disj: "?p1 + 20 \<le> ?p2 \<or> ?p2 + 8 \<le> ?p1"
    and pure: "\<And>m. length m = length (memory inst) \<Longrightarrow>
        length (calculateHash inst m) = length (memory inst) \<and>
        Uint8Array_slice (calculateHash inst m) ?o (?o + 57) =
          H (Uint8Array_slice m ?p1 (?p1 + 20)) (Uint8Array_slice m ?p2 (?p2 + 8))"
    by (simp_all add: engine_computes_def)
  obtain mem1 where m1: "Uint8Array_set (memory inst) (deref w s) ?p1 = Inr mem1"
    using r1 ls by (simp add: Uint8Array_set_def)
  have l1: "length mem1 = length (memory inst)" using m1 by (rule Uint8Array_set_length)
  obtain mem2 where m2: "Uint8Array_set mem1 (deref w u) ?p2 = Inr mem2"
    using r2 lu l1 by (simp add: Uint8Array_set_def)
  have l2: "length mem2 = length (memory inst)" using m2 l1 by (simp add: Uint8Array_set_length)
  have in2: "Uint8Array_slice mem2 ?p2 (?p2 + 8) = deref w u"
    using slice_set_same [OF m2] lu by simp
  have "Uint8Array_slice mem2 ?p1 (?p1 + 20) = Uint8Array_slice mem1 ?p1 (?p1 + 20)"
    using slice_set_other [OF m2, of ?p1 20] disj lu by auto
  also have "\<dots> = deref w s" using slice_set_same [OF m1] ls by simp
  finally have in1: "Uint8Array_slice mem2 ?p1 (?p1 + 20) = deref w s" .
  let ?mem3 = "calculateHash inst mem2"
  have l3: "length ?mem3 = length (memory inst)" using pure [OF l2] by simp
  have out: "Uint8Array_slice ?mem3 ?o (?o + 57) = H (deref w s) (deref w u)"
    using pure [OF l2] in1 in2 by simp
  have "length (Uint8Array_slice ?mem3 ?o (?o + 57)) = 57"
    using r3 l3 by (simp add: Uint8Array_slice_length)
  then have lH: "length (H (deref w s) (deref w u)) = 57" by (simp add: out)
  let ?inst' = "inst\<lparr>memory := ?mem3\<rparr>"
  have eng': "engine_computes ?inst' H"
    using eng l3 by (simp add: engine_computes_def)
  let ?w' = "w\<lparr>wasmInstance := Some ?inst',
      heap := heap w @ [H (deref w s) (deref w u), H (deref w s) (deref w u)]\<rparr>"
  have "calcHashAB s u w = (Inr (Suc (length (heap w))), ?w')"
    using inst m1 m2 out by (simp add: calcHashAB_def Let_def alloc_def deref_def)
  then show ?thesis using eng' lH by (intro exI [of _ ?w'] exI [of _ ?inst']) simp
qed

subsection \<open>Patching the database buffer\<close>

lemmas mhbd_consts = MHBD_SCHEME_OFFSET_def MHBD_HASHAB_OFFSET_def

lemma magic_check_nth:
  assumes "4 \<le> length d"
  shows "(String_fromCharCode [d ! 0, d ! 1, d ! 2, d ! 3] = ''mhbd'') = (take 4 d = mhbd_magic)"
proof -
  have "(String_fromCharCode [d ! 0, d ! 1, d ! 2, d ! 3] = ''mhbd'')
      = ([d ! 0, d ! 1, d ! 2, d ! 3] = mhbd_magic)"
    by (rule magic_check)
  then show ?thesis by (simp only: take4_nth [OF assms])
qed

lemma recompute_too_small:
  "length (deref w data) < 0xAB + 57 \<Longrightarrow>
   recomputeITunesCDBHash dg data uuid w =
     (Inr data, console_warn ''[hashAB] iTunesCDB too small for hashAB recomputation'' w)"
  by (simp add: recomputeITunesCDBHash_def)

lemma recompute_wrong_magic:
  assumes "0xAB + 57 \<le> length (deref w data)" and "take 4 (deref w data) \<noteq> mhbd_magic"
  shows "recomputeITunesCDBHash dg data uuid w =
     (Inr data, console_warn ''[hashAB] iTunesCDB does not start with mhbd'' w)"
proof -
  have "4 \<le> length (deref w data)" using assms(1) by simp
  then have "String_fromCharCode [deref w data ! 0, deref w data ! 1, deref w data ! 2, deref w data ! 3]
      \<noteq> ''mhbd''"
    using assms(2) by (simp only: magic_check_nth not_False_eq_True)
  moreover have "\<not> length (deref w data) < 0xAB + 57" using assms(1) by simp
  ultimately show ?thesis
    unfolding recomputeITunesCDBHash_def Let_def
    by (simp only: if_True if_False simp_thms)
qed

lemma recompute_valid_cases:
  assumes "data < length (heap w)" and "0xAB + 57 \<le> length (deref w data)"
    and "take 4 (deref w data) = mhbd_magic"
    and "d2 = (deref w data)[0x30 := 3, 0x31 := 0]"
    and "calcHashAB (Suc (length (heap w))) uuid
           (w\<lparr>heap := (heap w)[data := d2] @ [zero_fields d2, dg (zero_fields d2)]\<rparr>) = (r6, w6)"
  shows "case r6 of
           Inl e \<Rightarrow> recomputeITunesCDBHash dg data uuid w = (Inl e, w6)
         | Inr sig \<Rightarrow>
            (case Uint8Array_set (deref w6 data) (deref w6 sig) 0xAB of
               Inl e \<Rightarrow> recomputeITunesCDBHash dg data uuid w = (Inl e, w6)
             | Inr patched \<Rightarrow>
                 (\<exists>msg. recomputeITunesCDBHash dg data uuid w =
                    (Inr data,
                     console_log msg
                       (w6\<lparr>heap := (heap w6)[data := patched]
                             @ [Uint8Array_slice ((heap w6)[data := patched] ! sig) 0 4]\<rparr>))))"
proof -
  have "4 \<le> length (deref w data)" using assms(2) by simp
  then have magic: "String_fromCharCode [deref w data ! 0, deref w data ! 1, deref w data ! 2, deref w data ! 3]
      = ''mhbd''"
    using assms(3) by (simp only: magic_check_nth)
  have len: "\<not> length (deref w data) < 0xAB + 57" using assms(2) by simp
  have w5: "sha1 dg (length (heap w))
      (assign (length (heap w)) (zero_fields d2)
         (w\<lparr>heap := (heap w)[data := d2] @ [d2]\<rparr>))
       = (Suc (length (heap w)),
          w\<lparr>heap := (heap w)[data := d2] @ [zero_fields d2, dg (zero_fields d2)]\<rparr>)"
    by (simp add: sha1_def alloc_def assign_def deref_def list_update_append nth_append)
  have d2: "(deref (assign data ((deref w data)[MHBD_SCHEME_OFFSET := 0x03]) w) data)
                 [MHBD_SCHEME_OFFSET + 1 := 0x00] = d2"
    using assms(1) by (simp add: assms(4) deref_def assign_def mhbd_consts)
  have w2: "assign data d2 (assign data ((deref w data)[MHBD_SCHEME_OFFSET := 0x03]) w)
      = w\<lparr>heap := (heap w)[data := d2]\<rparr>"
    by (simp add: assign_def)
  have w3: "alloc (deref (w\<lparr>heap := (heap w)[data := d2]\<rparr>) data) (w\<lparr>heap := (heap w)[data := d2]\<rparr>)
      = (length (heap w), w\<lparr>heap := (heap w)[data := d2] @ [d2]\<rparr>)"
    using assms(1) by (simp add: alloc_def deref_def)
  have buf: "deref (w\<lparr>heap := (heap w)[data := d2] @ [d2]\<rparr>) (length (heap w)) = d2"
    by (simp add: deref_def nth_append)
  show ?thesis
    unfolding recomputeITunesCDBHash_def
    apply (simp only: len magic if_False Let_def not_not if_True simp_thms d2 w2 w3 buf w5 prod.case assms(5))
    apply (simp add: alloc_def assign_def deref_def mhbd_consts split: sum.splits)
    apply blast
    done
qed

lemma recompute_uninitialized:
  assumes "data < length (heap w)" and "0xAB + 57 \<le> length (deref w data)"
    and "take 4 (deref w data) = mhbd_magic"
    and "wasmInstance w = None"
    and "d2 = (deref w data)[0x30 := 3, 0x31 := 0]"
  shows "recomputeITunesCDBHash dg data uuid w =
    (Inl NotInitialized, w\<lparr>heap := (heap w)[data := d2] @ [zero_fields d2, dg (zero_fields d2)]\<rparr>)"
proof -
  let ?w5 = "w\<lparr>heap := (heap w)[data := d2] @ [zero_fields d2, dg (zero_fields d2)]\<rparr>"
  have "calcHashAB (Suc (length (heap w))) uuid ?w5 = (Inl NotInitialized, ?w5)"
    using assms(4) by (simp add: calcHashAB_uninitialized)
  from recompute_valid_cases [where dg = dg, OF assms(1-3) assms(5) this] show ?thesis by simp
qed

lemma recompute_valid:
  assumes "data < length (heap w)" and "0xAB + 57 \<le> length (deref w data)"
    and "take 4 (deref w data) = mhbd_magic"
    and "d2 = (deref w data)[0x30 := 3, 0x31 := 0]"
  shows "\<exists>r w' d' ys. recomputeITunesCDBHash dg data uuid w = (r, w') \<and>
           heap w' = (heap w)[data := d'] @ ys \<and> length d' = length (deref w data) \<and>
           (\<forall>k<length (deref w data). \<not> (0xAB \<le> k \<and> k < 0xAB + 57) \<longrightarrow> d' ! k = d2 ! k) \<and>
           (case r of Inl e \<Rightarrow> d' = d2 | Inr res \<Rightarrow> res = data)"
proof -
  let ?w5 = "w\<lparr>heap := (heap w)[data := d2] @ [zero_fields d2, dg (zero_fields d2)]\<rparr>"
  obtain r6 w6 where c: "calcHashAB (Suc (length (heap w))) uuid ?w5 = (r6, w6)"
    by (cases "calcHashAB (Suc (length (heap w))) uuid ?w5")
  from calcHashAB_frame [OF c] obtain ys where "heap w6 = heap ?w5 @ ys" by blast
  then have h6: "heap w6 = (heap w)[data := d2] @ (zero_fields d2 # dg (zero_fields d2) # ys)"
    by simp
  have ld2: "length d2 = length (deref w data)" by (simp add: assms(4))
  have d6: "deref w6 data = d2" using assms(1) by (simp add: deref_def h6 nth_append)
  note cases = recompute_valid_cases [where dg = dg, OF assms(1-3) assms(4) c]
  show ?thesis
  proof (cases r6)
    case (Inl e)
    with cases have "recomputeITunesCDBHash dg data uuid w = (Inl e, w6)" by simp
    then show ?thesis using h6 ld2 by auto
  next
    case (Inr sig)
    from calcHashAB_result [OF c [unfolded Inr]] have ls: "length (deref w6 sig) \<le> 57"
      by (simp add: deref_def)
    show ?thesis
    proof (cases "Uint8Array_set (deref w6 data) (deref w6 sig) 0xAB")
      case (Inl e)
      with cases Inr have "recomputeITunesCDBHash dg data uuid w = (Inl e, w6)" by simp
      then show ?thesis using h6 ld2 by auto
    next
      case (Inr patched)
      with cases \<open>r6 = Inr sig\<close> obtain msg where
        res: "recomputeITunesCDBHash dg data uuid w =
          (Inr data, console_log msg (w6\<lparr>heap := (heap w6)[data := patched]
                 @ [Uint8Array_slice ((heap w6)[data := patched] ! sig) 0 4]\<rparr>))"
        by auto
      have lp: "length patched = length (deref w data)"
        using Uint8Array_set_length [OF Inr] d6 ld2 by simp
      have np: "\<forall>k<length (deref w data). \<not> (0xAB \<le> k \<and> k < 0xAB + 57) \<longrightarrow> patched ! k = d2 ! k"
        using Uint8Array_set_nth [OF Inr] ls d6 ld2 by auto
      have hp: "(heap w6)[data := patched] = (heap w)[data := patched] @ (zero_fields d2 # dg (zero_fields d2) # ys)"
        using assms(1) by (simp add: h6 list_update_append)
      show ?thesis
        using res lp np hp by (auto simp: console_log_def)
    qed
  qed
qed

lemma recompute_ready:
  assumes "data < length (heap w)" and "0xAB + 57 \<le> length (deref w data)"
    and "take 4 (deref w data) = mhbd_magic"
    and "d2 = (deref w data)[0x30 := 3, 0x31 := 0]"
    and "uuid < length (heap w)" and "length (deref w uuid) = 8"
    and "wasmInstance w = Some inst" and "engine_computes inst H"
    and "\<forall>x. length (dg x) = 20"
    and "S = H (dg (zero_fields d2)) (deref w uuid)"
  shows "\<exists>w' inst' ys. recomputeITunesCDBHash dg data uuid w = (Inr data, w') \<and>
           heap w' = (heap w)[data := take 0xAB d2 @ S @ drop (0xAB + 57) d2] @ ys \<and>
           length S = 57 \<and> wasmInstance w' = Some inst' \<and> engine_computes inst' H"
proof -
  let ?w5 = "w\<lparr>heap := (heap w)[data := d2] @ [zero_fields d2, dg (zero_fields d2)]\<rparr>"
  have ne: "uuid \<noteq> data" using assms(2,6) by auto
  have s5: "deref ?w5 (Suc (length (heap w))) = dg (zero_fields d2)"
    by (simp add: deref_def nth_append)
  have u5: "deref ?w5 uuid = deref w uuid"
    using assms(5) ne by (simp add: deref_def nth_append)
  have i5: "wasmInstance ?w5 = Some inst" using assms(7) by simp
  have l5: "length (deref ?w5 (Suc (length (heap w)))) = 20" using assms(9) by (simp add: s5)
  have lu5: "length (deref ?w5 uuid) = 8" using assms(6) by (simp add: u5)
  from calcHashAB_ready [OF i5 assms(8) l5 lu5]
  obtain w6 inst' where c0: "calcHashAB (Suc (length (heap w))) uuid ?w5 = (Inr (Suc (length (heap ?w5))), w6)"
    and h6: "heap w6 = heap ?w5 @ [S, S]" and lS: "length S = 57"
    and i6: "wasmInstance w6 = Some inst'" and e6: "engine_computes inst' H"
    unfolding s5 u5 assms(10) [symmetric] by blast
  let ?sig = "Suc (Suc (Suc (length (heap w))))"
  have c: "calcHashAB (Suc (length (heap w))) uuid ?w5 = (Inr ?sig, w6)"
    using c0 by simp
  have ld2: "length d2 = length (deref w data)" by (simp add: assms(4))
  have d6: "deref w6 data = d2" using assms(1) by (simp add: deref_def h6 nth_append)
  have g6: "deref w6 ?sig = S" by (simp add: deref_def h6 nth_append)
  have set: "Uint8Array_set (deref w6 data) (deref w6 ?sig) 0xAB
      = Inr (take 0xAB d2 @ S @ drop (0xAB + 57) d2)"
    using assms(2) ld2 lS by (simp add: d6 g6 Uint8Array_set_def)
  from recompute_valid_cases [where dg = dg, OF assms(1-3) assms(4) c] set
  obtain msg where res: "recomputeITunesCDBHash dg data uuid w =
      (Inr data, console_log msg (w6\<lparr>heap := (heap w6)[data := take 0xAB d2 @ S @ drop (0xAB + 57) d2]
         @ [Uint8Array_slice ((heap w6)[data := take 0xAB d2 @ S @ drop (0xAB + 57) d2]
               ! ?sig) 0 4]\<rparr>))"
    by auto
  have "(heap w6)[data := take 0xAB d2 @ S @ drop (0xAB + 57) d2]
      = (heap w)[data := take 0xAB d2 @ S @ drop (0xAB + 57) d2] @ [zero_fields d2, dg (zero_fields d2), S, S]"
    using assms(1) by (simp add: h6 list_update_append)
  then show ?thesis using res lS i6 e6 by (auto simp: console_log_def)
qed

lemma scheme_slice:
  assumes "0x32 \<le> length d"
  shows "Uint8Array_slice d 0x30 0x32 = [d ! 0x30, d ! 0x31]"
proof -
  have "drop 0x30 d = d ! 0x30 # d ! 0x31 # drop 0x32 d"
    using assms Cons_nth_drop_Suc [of 48 d] Cons_nth_drop_Suc [of 49 d] by simp
  then show ?thesis by (simp add: Uint8Array_slice_def)
qed

lemma slice_cong:
  assumes "length a = length b" and "\<And>k. s \<le> k \<Longrightarrow> k < e \<Longrightarrow> k < length a \<Longrightarrow> a ! k = b ! k"
  shows "Uint8Array_slice a s e = Uint8Array_slice b s e"
proof (rule nth_equalityI)
  show "length (Uint8Array_slice a s e) = length (Uint8Array_slice b s e)"
    by (simp add: Uint8Array_slice_length assms(1))
  fix k assume "k < length (Uint8Array_slice a s e)"
  then have k: "s + k < e" "s + k < length a" by (auto simp: Uint8Array_slice_length)
  then show "Uint8Array_slice a s e ! k = Uint8Array_slice b s e ! k"
    using assms by (simp add: Uint8Array_slice_nth)
qed

lemma example_engine: "engine_computes example_instance example_signature"
  by (simp add: engine_computes_def example_instance_def example_signature_def
      Uint8Array_slice_def)

lemma example_digest_length: "length (example_digest x) = 20"
  by (simp add: example_digest_def)

lemma example_mhbd_valid:
  "length example_mhbd = 228" "take 4 example_mhbd = mhbd_magic"
  by (simp_all add: example_mhbd_def mhbd_magic_def)

lemma example_world_valid:
  "(0::nat) < length (heap example_world)"
  "0xAB + 57 \<le> length (deref example_world 0)"
  "take 4 (deref example_world 0) = mhbd_magic"
  "(1::nat) < length (heap example_world)"
  "length (deref example_world 1) = 8"
  "wasmInstance example_world = Some example_instance"
  by (simp_all add: example_world_def deref_def example_mhbd_valid example_uuid_def)

lemma example_world_uninitialized_valid:
  "(0::nat) < length (heap example_world_uninitialized)"
  "0xAB + 57 \<le> length (deref example_world_uninitialized 0)"
  "take 4 (deref example_world_uninitialized 0) = mhbd_magic"
  "wasmInstance example_world_uninitialized = None"
  by (simp_all add: example_world_uninitialized_def deref_def example_mhbd_valid)

lemma example_world_rejected_facts:
  "0xAB + 57 \<le> length (deref example_world_rejected 0)"
  "take 4 (deref example_world_rejected 0) \<noteq> mhbd_magic"
  "length (deref example_world_rejected 2) < 0xAB + 57"
  "take 4 (deref example_world_rejected 2) = mhbd_magic"
  by (simp_all add: example_world_rejected_def deref_def mhbd_magic_def) code_simp

text \<open>
  Claim C5. A buffer shorter than \<open>0xAB + 57\<close> bytes, or long enough but not starting with
  \<^verbatim>\<open>mhbd\<close>, is returned as it is: the result is the reference given, and the world after
  the call is the world before it with one more console warning (the one for a buffer too
  small, respectively for a wrong format). So no byte of any array changes, nothing is
  allocated, and the instance is untouched; this for every digest function and every state
  of the instance, an absent one too: no digest and no signature is computed.
\<close>

theorem recompute_rejects_unchanged:
  "(length (deref w data) < 0xAB + 57 \<longrightarrow>
      recomputeITunesCDBHash subtle_digest data uuid w =
        (Inr data,
         w\<lparr>console := console w @ [Warn ''[hashAB] iTunesCDB too small for hashAB recomputation'']\<rparr>)) \<and>
   (0xAB + 57 \<le> length (deref w data) \<and> take 4 (deref w data) \<noteq> mhbd_magic \<longrightarrow>
      recomputeITunesCDBHash subtle_digest data uuid w =
        (Inr data,
         w\<lparr>console := console w @ [Warn ''[hashAB] iTunesCDB does not start with mhbd'']\<rparr>))"
  by (simp add: recompute_too_small recompute_wrong_magic console_warn_def)

text \<open>C5 at two rejected buffers: the magic alone, and 228 zero bytes.\<close>

theorem recompute_rejects_unchanged_witness:
  "length (deref example_world_rejected 2) < 0xAB + 57 \<and>
   recomputeITunesCDBHash example_digest 2 1 example_world_rejected =
     (Inr 2, example_world_rejected\<lparr>console := console example_world_rejected
        @ [Warn ''[hashAB] iTunesCDB too small for hashAB recomputation'']\<rparr>) \<and>
   0xAB + 57 \<le> length (deref example_world_rejected 0) \<and>
   take 4 (deref example_world_rejected 0) \<noteq> mhbd_magic \<and>
   recomputeITunesCDBHash example_digest 0 1 example_world_rejected =
     (Inr 0, example_world_rejected\<lparr>console := console example_world_rejected
        @ [Warn ''[hashAB] iTunesCDB does not start with mhbd'']\<rparr>)"
  using recompute_rejects_unchanged [of example_world_rejected 2 example_digest 1]
    recompute_rejects_unchanged [of example_world_rejected 0 example_digest 1]
    example_world_rejected_facts
  by simp

text \<open>
  Claim C4 is stated for every buffer. A buffer of 228 zero bytes is long enough and has
  no magic: it is returned unchanged, and its hashing-scheme field is still 00 00.
\<close>

theorem recompute_scheme_counterexample:
  "0xAB + 57 \<le> length (deref example_world_rejected 0) \<and>
   fst (recomputeITunesCDBHash example_digest 0 1 example_world_rejected) = Inr 0 \<and>
   Uint8Array_slice (deref (snd (recomputeITunesCDBHash example_digest 0 1 example_world_rejected)) 0)
       0x30 0x32 \<noteq> [0x03, 0x00]"
proof -
  note f = example_world_rejected_facts
  have "recomputeITunesCDBHash example_digest 0 1 example_world_rejected =
     (Inr 0, console_warn ''[hashAB] iTunesCDB does not start with mhbd'' example_world_rejected)"
    using f(1) f(2) by (rule recompute_wrong_magic)
  moreover have "Uint8Array_slice (replicate 228 0) 0x30 0x32 \<noteq> [0x03, 0x00 :: byte]"
    by code_simp
  ultimately show ?thesis
    using f(1) by (simp add: console_warn_def deref_def example_world_rejected_def)
qed

text \<open>
  Claim C4, amended. For every buffer of at least \<open>0xAB + 57\<close> bytes that starts with
  \<^verbatim>\<open>mhbd\<close>, after \<^verbatim>\<open>recomputeITunesCDBHash\<close> (whether it returns or throws) the two bytes at
  offset 0x30 are 03 00.
\<close>

theorem recompute_sets_scheme:
  assumes "data < length (heap w)" and "0xAB + 57 \<le> length (deref w data)"
    and "take 4 (deref w data) = mhbd_magic"
  shows "Uint8Array_slice (deref (snd (recomputeITunesCDBHash subtle_digest data uuid w)) data) 0x30 0x32
           = [0x03, 0x00]"
proof -
  from recompute_valid [OF assms refl, of subtle_digest uuid]
  obtain r w' d' ys where res: "recomputeITunesCDBHash subtle_digest data uuid w = (r, w')"
    and h: "heap w' = (heap w)[data := d'] @ ys"
    and l: "length d' = length (deref w data)"
    and n: "\<forall>k<length (deref w data). \<not> (0xAB \<le> k \<and> k < 0xAB + 57) \<longrightarrow>
              d' ! k = (deref w data)[0x30 := 3, 0x31 := 0] ! k"
    by blast
  have d: "deref w' data = d'" using assms(1) by (simp add: deref_def h nth_append)
  have "d' ! 0x30 = 3" "d' ! 0x31 = 0" using n assms(2) by simp_all
  moreover have "0x32 \<le> length d'" using l assms(2) by simp
  ultimately show ?thesis by (simp add: res d scheme_slice)
qed

text \<open>The amended C4 at the example buffer.\<close>

theorem recompute_sets_scheme_witness:
  "(0::nat) < length (heap example_world) \<and>
   0xAB + 57 \<le> length (deref example_world 0) \<and>
   take 4 (deref example_world 0) = mhbd_magic \<and>
   Uint8Array_slice (deref (snd (recomputeITunesCDBHash example_digest 0 1 example_world)) 0) 0x30 0x32
     = [0x03, 0x00]"
proof -
  note v = example_world_valid
  note c = recompute_sets_scheme [OF v(1) v(2) v(3), of example_digest 1]
  show ?thesis by (intro conjI v c)
qed

text \<open>
  Claim C6. On a buffer of at least \<open>0xAB + 57\<close> bytes that starts with \<^verbatim>\<open>mhbd\<close>, the call
  writes into the buffer only within the scheme field (2 bytes at 0x30) and the signature
  region (57 bytes at 0xAB): the length is kept, every byte outside the two regions is
  what it was, in particular the device identifier at 0x18 and the digest regions at 0x58
  and 0x72 (zeroed in the working copy only), and every other array that existed before
  the call is unchanged. This holds for every outcome of the call, the successful one
  included.
\<close>

theorem recompute_frame:
  assumes "data < length (heap w)" and "0xAB + 57 \<le> length (deref w data)"
    and "take 4 (deref w data) = mhbd_magic"
  shows "let w' = snd (recomputeITunesCDBHash subtle_digest data uuid w) in
     length (deref w' data) = length (deref w data) \<and>
     (\<forall>k<length (deref w data).
        \<not> (0x30 \<le> k \<and> k < 0x30 + 2) \<and> \<not> (0xAB \<le> k \<and> k < 0xAB + 57) \<longrightarrow>
        deref w' data ! k = deref w data ! k) \<and>
     Uint8Array_slice (deref w' data) 0x18 (0x18 + 8) = Uint8Array_slice (deref w data) 0x18 (0x18 + 8) \<and>
     Uint8Array_slice (deref w' data) 0x58 (0x58 + 20) = Uint8Array_slice (deref w data) 0x58 (0x58 + 20) \<and>
     Uint8Array_slice (deref w' data) 0x72 (0x72 + 46) = Uint8Array_slice (deref w data) 0x72 (0x72 + 46) \<and>
     (\<forall>r<length (heap w). r \<noteq> data \<longrightarrow> deref w' r = deref w r)"
proof -
  from recompute_valid [OF assms refl, of subtle_digest uuid]
  obtain r w' d' ys where res: "recomputeITunesCDBHash subtle_digest data uuid w = (r, w')"
    and h: "heap w' = (heap w)[data := d'] @ ys"
    and l: "length d' = length (deref w data)"
    and n: "\<forall>k<length (deref w data). \<not> (0xAB \<le> k \<and> k < 0xAB + 57) \<longrightarrow>
              d' ! k = (deref w data)[0x30 := 3, 0x31 := 0] ! k"
    by blast
  have d: "deref w' data = d'" using assms(1) by (simp add: deref_def h nth_append)
  have nth: "\<And>k. k < length (deref w data) \<Longrightarrow> \<not> (0x30 \<le> k \<and> k < 0x30 + 2) \<Longrightarrow>
      \<not> (0xAB \<le> k \<and> k < 0xAB + 57) \<Longrightarrow> d' ! k = deref w data ! k"
    using n by (auto simp: nth_list_update)
  have s1: "Uint8Array_slice d' 0x18 (0x18 + 8) = Uint8Array_slice (deref w data) 0x18 (0x18 + 8)"
    by (rule slice_cong [OF l]) (simp add: nth l)
  have s2: "Uint8Array_slice d' 0x58 (0x58 + 20) = Uint8Array_slice (deref w data) 0x58 (0x58 + 20)"
    by (rule slice_cong [OF l]) (simp add: nth l)
  have s3: "Uint8Array_slice d' 0x72 (0x72 + 46) = Uint8Array_slice (deref w data) 0x72 (0x72 + 46)"
    by (rule slice_cong [OF l]) (simp add: nth l)
  have others: "\<forall>r<length (heap w). r \<noteq> data \<longrightarrow> deref w' r = deref w r"
    by (simp add: deref_def h nth_append)
  show ?thesis
    unfolding Let_def res snd_conv d
    using l nth s1 s2 s3 others by blast
qed

text \<open>C6 at the example buffer, with three of the bytes next to the written regions.\<close>

theorem recompute_frame_witness:
  "(0::nat) < length (heap example_world) \<and>
   0xAB + 57 \<le> length (deref example_world 0) \<and>
   take 4 (deref example_world 0) = mhbd_magic \<and>
   (let w' = snd (recomputeITunesCDBHash example_digest 0 1 example_world) in
     length (deref w' 0) = length (deref example_world 0) \<and>
     deref w' 0 ! 0x2F = deref example_world 0 ! 0x2F \<and>
     deref w' 0 ! 0x32 = deref example_world 0 ! 0x32 \<and>
     deref w' 0 ! 0xAA = deref example_world 0 ! 0xAA \<and>
     Uint8Array_slice (deref w' 0) 0x18 (0x18 + 8) = Uint8Array_slice (deref example_world 0) 0x18 (0x18 + 8) \<and>
     Uint8Array_slice (deref w' 0) 0x58 (0x58 + 20) = Uint8Array_slice (deref example_world 0) 0x58 (0x58 + 20) \<and>
     Uint8Array_slice (deref w' 0) 0x72 (0x72 + 46) = Uint8Array_slice (deref example_world 0) 0x72 (0x72 + 46) \<and>
     deref w' 1 = deref example_world 1)"
proof -
  note v = example_world_valid
  note c = recompute_frame [OF v(1) v(2) v(3), of example_digest 1, unfolded Let_def]
  let ?w' = "snd (recomputeITunesCDBHash example_digest 0 1 example_world)"
  have l: "length (deref example_world 0) = 228"
    by (simp add: example_world_def deref_def example_mhbd_valid)
  from c have nth: "\<And>k. k < 228 \<Longrightarrow> \<not> (0x30 \<le> k \<and> k < 0x30 + 2) \<Longrightarrow> \<not> (0xAB \<le> k \<and> k < 0xAB + 57)
      \<Longrightarrow> deref ?w' 0 ! k = deref example_world 0 ! k"
    unfolding l by blast
  from c have others: "\<And>r. r < length (heap example_world) \<Longrightarrow> r \<noteq> 0
      \<Longrightarrow> deref ?w' r = deref example_world r"
    by blast
  have n1: "deref ?w' 0 ! 0x2F = deref example_world 0 ! 0x2F" by (rule nth) simp_all
  have n2: "deref ?w' 0 ! 0x32 = deref example_world 0 ! 0x32" by (rule nth) simp_all
  have n3: "deref ?w' 0 ! 0xAA = deref example_world 0 ! 0xAA" by (rule nth) simp_all
  have o: "deref ?w' 1 = deref example_world 1" by (rule others) (simp_all add: example_world_def)
  show ?thesis unfolding Let_def using v c n1 n2 n3 o by blast
qed

lemma patched_facts:
  fixes d S :: "byte list"
  assumes "0xAB + 57 \<le> length d" and "length S = 57"
    and "d2 = d[0x30 := 3, 0x31 := 0]"
    and "P = take 0xAB d2 @ S @ drop (0xAB + 57) d2"
  shows "length P = length d"
    and "P[0x30 := 3, 0x31 := 0] = P"
    and "zero_fields P = zero_fields d2"
    and "take 4 P = take 4 d"
    and "take 0xAB P @ S @ drop (0xAB + 57) P = P"
    and "Uint8Array_slice P 0xAB (0xAB + 57) = S"
proof -
  have l2: "length d2 = length d" by (simp add: assms(3))
  show lP: "length P = length d" using assms(1,2) l2 by (simp add: assms(4))
  have nP: "\<And>k. k < 0xAB \<Longrightarrow> P ! k = d2 ! k"
    using assms(1) l2 by (simp add: assms(4) nth_append)
  have "P ! 0x30 = 3" "P ! 0x31 = 0" using assms(1) by (simp_all add: nP assms(3))
  then show "P[0x30 := 3, 0x31 := 0] = P" by (metis list_update_id)
  show "zero_fields P = zero_fields d2"
  proof (rule nth_equalityI)
    show "length (zero_fields P) = length (zero_fields d2)"
      by (simp add: zero_fields_length lP l2)
    fix k assume "k < length (zero_fields P)"
    then have k: "k < length d" by (simp add: zero_fields_length lP)
    have "\<not> (0xAB \<le> k \<and> k < 0xAB + 57) \<Longrightarrow> P ! k = d2 ! k"
      using assms(1,2) l2 k by (auto simp: assms(4) nth_append)
    then show "zero_fields P ! k = zero_fields d2 ! k"
      using k by (simp add: zero_fields_nth lP l2)
  qed
  show "take 4 P = take 4 d"
    using assms(1) l2 by (simp add: assms(4) assms(3))
  show "take 0xAB P @ S @ drop (0xAB + 57) P = P"
    using assms(1,2) l2 by (simp add: assms(4))
  show "Uint8Array_slice P 0xAB (0xAB + 57) = S"
    using assms(1,2) l2 by (simp add: assms(4) Uint8Array_slice_def)
qed

text \<open>
  Claim C1. For a buffer of at least \<open>0xAB + 57\<close> bytes that starts with \<^verbatim>\<open>mhbd\<close> and an
  8-byte device identifier, with an instance that computes a signature function H and a
  digest of 20 bytes: both runs return; the first run writes at 0xAB the 57 bytes that H
  gives for the digest of the zeroed copy and the device identifier; and the second run
  on the patched buffer leaves the same 57 bytes there (the whole buffer is the same
  after both runs).
\<close>

theorem recompute_idempotent:
  assumes "data < length (heap w)" and "0xAB + 57 \<le> length (deref w data)"
    and "take 4 (deref w data) = mhbd_magic"
    and "uuid < length (heap w)" and "length (deref w uuid) = 8"
    and "wasmInstance w = Some inst" and "engine_computes inst H"
    and "\<forall>x. length (subtle_digest x) = 20"
  shows "let run1 = recomputeITunesCDBHash subtle_digest data uuid w;
             run2 = recomputeITunesCDBHash subtle_digest data uuid (snd run1)
         in fst run1 = Inr data \<and> fst run2 = Inr data \<and>
            Uint8Array_slice (deref (snd run1) data) 0xAB (0xAB + 57)
              = H (subtle_digest (zero_fields ((deref w data)[0x30 := 3, 0x31 := 0]))) (deref w uuid) \<and>
            length (Uint8Array_slice (deref (snd run1) data) 0xAB (0xAB + 57)) = 57 \<and>
            Uint8Array_slice (deref (snd run2) data) 0xAB (0xAB + 57)
              = Uint8Array_slice (deref (snd run1) data) 0xAB (0xAB + 57) \<and>
            deref (snd run2) data = deref (snd run1) data"
proof -
  define d2 where "d2 = (deref w data)[0x30 := 3, 0x31 := 0]"
  define S where "S = H (subtle_digest (zero_fields d2)) (deref w uuid)"
  define P where "P = take 0xAB d2 @ S @ drop (0xAB + 57) d2"
  have ne: "uuid \<noteq> data" using assms(2,5) by auto
  from recompute_ready [OF assms(1-3) d2_def assms(4-8) S_def]
  obtain w1 inst1 ys1 where r1: "recomputeITunesCDBHash subtle_digest data uuid w = (Inr data, w1)"
    and h1: "heap w1 = (heap w)[data := P] @ ys1" and lS: "length S = 57"
    and i1: "wasmInstance w1 = Some inst1" and e1: "engine_computes inst1 H"
    unfolding P_def by blast
  note pf = patched_facts [OF assms(2) lS d2_def P_def]
  have d1: "deref w1 data = P" using assms(1) by (simp add: deref_def h1 nth_append)
  have u1: "deref w1 uuid = deref w uuid" using assms(4) ne by (simp add: deref_def h1 nth_append)
  have v1: "data < length (heap w1)" "uuid < length (heap w1)" using assms(1,4) by (simp_all add: h1)
  have v2: "0xAB + 57 \<le> length (deref w1 data)" using assms(2) pf(1) by (simp add: d1)
  have v3: "take 4 (deref w1 data) = mhbd_magic" using assms(3) pf(4) by (simp add: d1)
  have v4: "length (deref w1 uuid) = 8" using assms(5) by (simp add: u1)
  have P2: "P = (deref w1 data)[0x30 := 3, 0x31 := 0]" using pf(2) by (simp add: d1)
  have S2: "S = H (subtle_digest (zero_fields P)) (deref w1 uuid)"
    by (simp add: S_def pf(3) u1)
  from recompute_ready [OF v1(1) v2 v3 P2 v1(2) v4 i1 e1 assms(8) S2]
  obtain w2 ys2 where r2: "recomputeITunesCDBHash subtle_digest data uuid w1 = (Inr data, w2)"
    and h2: "heap w2 = (heap w1)[data := take 0xAB P @ S @ drop (0xAB + 57) P] @ ys2"
    by blast
  have d2': "deref w2 data = P" using v1(1) pf(5) by (simp add: deref_def h2 nth_append)
  show ?thesis
    unfolding Let_def r1 snd_conv fst_conv r2 d1 d2' pf(6) using lS by (simp add: S_def d2_def)
qed

text \<open>C1 at the example buffer with the example engine and digest.\<close>

theorem recompute_idempotent_witness:
  "(0::nat) < length (heap example_world) \<and>
   0xAB + 57 \<le> length (deref example_world 0) \<and>
   take 4 (deref example_world 0) = mhbd_magic \<and>
   (1::nat) < length (heap example_world) \<and>
   length (deref example_world 1) = 8 \<and>
   wasmInstance example_world = Some example_instance \<and>
   engine_computes example_instance example_signature \<and>
   (\<forall>x. length (example_digest x) = 20) \<and>
   (let run1 = recomputeITunesCDBHash example_digest 0 1 example_world;
        run2 = recomputeITunesCDBHash example_digest 0 1 (snd run1)
    in fst run1 = Inr 0 \<and> fst run2 = Inr 0 \<and>
       Uint8Array_slice (deref (snd run1) 0) 0xAB (0xAB + 57)
         = example_signature
             (example_digest (zero_fields ((deref example_world 0)[0x30 := 3, 0x31 := 0])))
             (deref example_world 1) \<and>
       length (Uint8Array_slice (deref (snd run1) 0) 0xAB (0xAB + 57)) = 57 \<and>
       Uint8Array_slice (deref (snd run2) 0) 0xAB (0xAB + 57)
         = Uint8Array_slice (deref (snd run1) 0) 0xAB (0xAB + 57) \<and>
       deref (snd run2) 0 = deref (snd run1) 0)"
proof -
  have dl: "\<forall>x. length (example_digest x) = 20" by (simp add: example_digest_length)
  note v = example_world_valid
  note c = recompute_idempotent [OF v(1) v(2) v(3) v(4) v(5) v(6) example_engine dl]
  show ?thesis by (intro conjI v example_engine dl c)
qed

subsection \<open>Patching while the engine is being initialised\<close>

text \<open>When no other task runs during the suspension, the call is the one-step call of
  the properties above.\<close>

lemma recompute_async_id:
  "recomputeITunesCDBHash_async dg (\<lambda>w. w) data uuid w = recomputeITunesCDBHash dg data uuid w"
  by (simp add: recomputeITunesCDBHash_async_def recomputeITunesCDBHash_def
      recomputeITunesCDBHash_prepare_def recomputeITunesCDBHash_finish_def sha1_def Let_def
      split: prod.splits)

lemma recompute_prepare_eq:
  assumes "data < length (heap w)" and "d2 = (deref w data)[0x30 := 3, 0x31 := 0]"
  shows "recomputeITunesCDBHash_prepare data w
     = (length (heap w), w\<lparr>heap := (heap w)[data := d2] @ [zero_fields d2]\<rparr>)"
  using assms(1)
  by (simp add: recomputeITunesCDBHash_prepare_def Let_def assign_def deref_def alloc_def
      mhbd_consts assms(2) list_update_append nth_append)

lemma recompute_async_valid_unfold:
  assumes "0xAB + 57 \<le> length (deref w data)" and "take 4 (deref w data) = mhbd_magic"
  shows "recomputeITunesCDBHash_async dg during data uuid w =
     (let (buf, w4) = recomputeITunesCDBHash_prepare data w;
          digest = dg (deref w4 buf);
          resumed = during w4;
          (sha1Hash, w5) = alloc digest resumed
      in recomputeITunesCDBHash_finish data uuid sha1Hash w5)"
proof -
  have "4 \<le> length (deref w data)" using assms(1) by simp
  then have magic: "String_fromCharCode [deref w data ! 0, deref w data ! 1, deref w data ! 2, deref w data ! 3]
      = ''mhbd''"
    using assms(2) by (simp only: magic_check_nth)
  have len: "\<not> length (deref w data) < 0xAB + 57" using assms(1) by simp
  show ?thesis
    unfolding recomputeITunesCDBHash_async_def
    by (simp only: len magic if_False Let_def not_not simp_thms)
qed

text \<open>
  Claim C10, amended. On a buffer of at least \<open>0xAB + 57\<close> bytes that starts with \<^verbatim>\<open>mhbd\<close>,
  when there is no instance at the moment the call resumes from \<^verbatim>\<open>await sha1(buf)\<close>
  (\<^verbatim>\<open>initHashAB\<close> has not completed by then) and the tasks that ran meanwhile have left the
  buffer alone, the call throws the error of \<^verbatim>\<open>calcHashAB\<close>; the signature region is what it
  was, but the scheme field holds 03 00: the buffer after the failed call is the buffer
  before it with these two bytes written.
\<close>

theorem recompute_async_not_atomic:
  assumes "data < length (heap w)" and "0xAB + 57 \<le> length (deref w data)"
    and "take 4 (deref w data) = mhbd_magic"
    and "wasmInstance (during (snd (recomputeITunesCDBHash_prepare data w))) = None"
    and "data < length (heap (during (snd (recomputeITunesCDBHash_prepare data w))))"
    and "deref (during (snd (recomputeITunesCDBHash_prepare data w))) data
           = deref (snd (recomputeITunesCDBHash_prepare data w)) data"
  shows "let run = recomputeITunesCDBHash_async subtle_digest during data uuid w; w' = snd run in
     fst run = Inl NotInitialized \<and>
     Uint8Array_slice (deref w' data) 0xAB (0xAB + 57) = Uint8Array_slice (deref w data) 0xAB (0xAB + 57) \<and>
     Uint8Array_slice (deref w' data) 0x30 0x32 = [0x03, 0x00] \<and>
     deref w' data = (deref w data)[0x30 := 0x03, 0x31 := 0x00]"
proof -
  let ?d2 = "(deref w data)[0x30 := 0x03, 0x31 := 0x00]"
  let ?ws = "w\<lparr>heap := (heap w)[data := ?d2] @ [zero_fields ?d2]\<rparr>"
  note prep = recompute_prepare_eq [OF assms(1) refl]
  have ws: "snd (recomputeITunesCDBHash_prepare data w) = ?ws" by (simp add: prep)
  have none: "wasmInstance (during ?ws) = None" using assms(4) by (simp only: ws)
  have lt: "data < length (heap (during ?ws))" using assms(5) by (simp only: ws)
  have same: "deref (during ?ws) data = ?d2"
    using assms(6) assms(1) unfolding ws by (simp add: deref_def nth_append)
  let ?w5 = "(during ?ws)\<lparr>heap := heap (during ?ws) @ [subtle_digest (deref ?ws (length (heap w)))]\<rparr>"
  have fin: "recomputeITunesCDBHash_finish data uuid (length (heap (during ?ws))) ?w5
      = (Inl NotInitialized, ?w5)"
    using none by (simp add: recomputeITunesCDBHash_finish_def calcHashAB_uninitialized)
  have run: "recomputeITunesCDBHash_async subtle_digest during data uuid w = (Inl NotInitialized, ?w5)"
    unfolding recompute_async_valid_unfold [OF assms(2,3)] prep
    by (simp only: Let_def prod.case alloc_def fin)
  have d: "deref ?w5 data = ?d2"
    using lt same by (simp add: deref_def nth_append)
  have "Uint8Array_slice ?d2 0xAB (0xAB + 57) = Uint8Array_slice (deref w data) 0xAB (0xAB + 57)"
    by (rule slice_cong) simp_all
  moreover have "Uint8Array_slice ?d2 0x30 0x32 = [0x03, 0x00]"
    using assms(2) by (simp add: scheme_slice)
  ultimately show ?thesis
    unfolding Let_def run snd_conv fst_conv d by simp
qed

lemma example_init_completes_eq:
  "wasmInstance w = None \<Longrightarrow> example_init_completes w = w\<lparr>wasmInstance := Some example_instance\<rparr>"
  by (simp add: example_init_completes_def initHashAB_def)

lemma example_init_fails_eq:
  "wasmInstance w = None \<Longrightarrow> example_init_fails w = w"
  by (simp add: example_init_fails_def initHashAB_def)

lemma recompute_async_ready:
  assumes "data < length (heap w)" and "0xAB + 57 \<le> length (deref w data)"
    and "take 4 (deref w data) = mhbd_magic"
    and "d2 = (deref w data)[0x30 := 3, 0x31 := 0]"
    and "ws = snd (recomputeITunesCDBHash_prepare data w)"
    and "wasmInstance (during ws) = Some inst" and "engine_computes inst H"
    and "heap (during ws) = heap ws"
    and "uuid < length (heap w)" and "length (deref w uuid) = 8"
    and "\<forall>x. length (dg x) = 20"
    and "S = H (dg (zero_fields d2)) (deref w uuid)"
  shows "fst (recomputeITunesCDBHash_async dg during data uuid w) = Inr data \<and>
         Uint8Array_slice (deref (snd (recomputeITunesCDBHash_async dg during data uuid w)) data)
            0xAB (0xAB + 57) = S"
proof -
  note prep = recompute_prepare_eq [OF assms(1) assms(4)]
  have ws: "ws = w\<lparr>heap := (heap w)[data := d2] @ [zero_fields d2]\<rparr>"
    by (simp add: assms(5) prep)
  have hd: "heap (during ws) = (heap w)[data := d2] @ [zero_fields d2]"
    unfolding assms(8) unfolding ws by simp
  have ne: "uuid \<noteq> data" using assms(2,10) by auto
  let ?w5 = "(during ws)\<lparr>heap := heap (during ws) @ [dg (zero_fields d2)]\<rparr>"
  have bufc: "deref ws (length (heap w)) = zero_fields d2"
    unfolding ws deref_def by (simp add: nth_append)
  have h5: "heap ?w5 = (heap w)[data := d2] @ [zero_fields d2, dg (zero_fields d2)]"
    by (simp add: hd)
  have i5: "wasmInstance ?w5 = Some inst" using assms(6) by simp
  have s5: "deref ?w5 (length (heap (during ws))) = dg (zero_fields d2)"
    unfolding deref_def h5 by (simp add: hd nth_append)
  have u5: "deref ?w5 uuid = deref w uuid"
    unfolding deref_def h5 using assms(9) ne by (simp add: nth_append)
  have l5: "length (deref ?w5 (length (heap (during ws)))) = 20" using assms(11) by (simp only: s5)
  have lu5: "length (deref ?w5 uuid) = 8" using assms(10) by (simp only: u5)
  from calcHashAB_ready [OF i5 assms(7) l5 lu5]
  obtain w6 where c0: "calcHashAB (length (heap (during ws))) uuid ?w5 = (Inr (Suc (length (heap ?w5))), w6)"
    and h6: "heap w6 = heap ?w5 @ [S, S]" and lS: "length S = 57"
    unfolding s5 u5 assms(12) [symmetric] by blast
  let ?sig = "Suc (Suc (length (heap (during ws))))"
  have c: "calcHashAB (length (heap (during ws))) uuid ?w5 = (Inr ?sig, w6)"
    using c0 by simp
  let ?P = "take 0xAB d2 @ S @ drop (0xAB + 57) d2"
  have ld2: "length d2 = length (deref w data)" by (simp add: assms(4))
  have d6: "deref w6 data = d2"
    unfolding deref_def h6 h5 using assms(1) by (simp add: nth_append)
  have g6: "deref w6 ?sig = S"
    unfolding deref_def h6 by (simp add: nth_append)
  have set: "Uint8Array_set (deref w6 data) (deref w6 ?sig) MHBD_HASHAB_OFFSET = Inr ?P"
    unfolding d6 g6 using assms(2) ld2 lS by (simp add: Uint8Array_set_def mhbd_consts)
  have lt6: "data < length (heap w6)" unfolding h6 h5 using assms(1) by simp
  let ?w7 = "assign data ?P w6"
  let ?w8 = "?w7\<lparr>heap := heap ?w7 @ [Uint8Array_slice (deref ?w7 ?sig) 0 4]\<rparr>"
  have "\<exists>msg. recomputeITunesCDBHash_finish data uuid (length (heap (during ws))) ?w5
      = (Inr data, console_log msg ?w8)"
    unfolding recomputeITunesCDBHash_finish_def
    by (simp only: c set Let_def alloc_def prod.case sum.case) blast
  then obtain msg where fin: "recomputeITunesCDBHash_finish data uuid (length (heap (during ws))) ?w5
      = (Inr data, console_log msg ?w8)" by blast
  have "recomputeITunesCDBHash_async dg during data uuid w
      = recomputeITunesCDBHash_finish data uuid (length (heap (during ws)))
          ((during ws)\<lparr>heap := heap (during ws) @ [dg (deref ws (length (heap w)))]\<rparr>)"
    unfolding recompute_async_valid_unfold [OF assms(2,3)] prep
    by (simp only: Let_def prod.case alloc_def ws [symmetric])
  then have run: "recomputeITunesCDBHash_async dg during data uuid w = (Inr data, console_log msg ?w8)"
    by (simp only: bufc fin)
  have "deref (console_log msg ?w8) data = ?P"
    using lt6 by (simp add: console_log_def deref_def assign_def nth_append)
  moreover have "Uint8Array_slice ?P 0xAB (0xAB + 57) = S"
    by (rule patched_facts(6) [OF assms(2) lS assms(4) refl])
  ultimately show ?thesis unfolding run by simp
qed

lemma example_prepare_uninitialized:
  "wasmInstance (snd (recomputeITunesCDBHash_prepare 0 example_world_uninitialized)) = None"
  "(0::nat) < length (heap (snd (recomputeITunesCDBHash_prepare 0 example_world_uninitialized)))"
  using recompute_prepare_eq [OF example_world_uninitialized_valid(1) refl]
    example_world_uninitialized_valid(4)
  by simp_all

text \<open>
  Claim C10 says that a call made before \<^verbatim>\<open>initHashAB\<close> has completed throws the error of
  \<^verbatim>\<open>calcHashAB\<close> and leaves the signature as it was. The instance is looked at only when
  the call resumes from \<^verbatim>\<open>await sha1(buf)\<close>: a call made without an instance, during whose
  suspension \<^verbatim>\<open>initHashAB\<close> completes, returns the buffer and has written a signature.
\<close>

theorem recompute_init_completes_counterexample:
  "wasmInstance example_world_uninitialized = None \<and>
   fst (recomputeITunesCDBHash_async example_digest example_init_completes 0 1
          example_world_uninitialized) = Inr 0 \<and>
   Uint8Array_slice
      (deref (snd (recomputeITunesCDBHash_async example_digest example_init_completes 0 1
                     example_world_uninitialized)) 0) 0xAB (0xAB + 57)
     \<noteq> Uint8Array_slice (deref example_world_uninitialized 0) 0xAB (0xAB + 57)"
proof -
  note v = example_world_uninitialized_valid
  let ?ws = "snd (recomputeITunesCDBHash_prepare 0 example_world_uninitialized)"
  let ?S = "example_signature
      (example_digest (zero_fields ((deref example_world_uninitialized 0)[0x30 := 3, 0x31 := 0])))
      (deref example_world_uninitialized 1)"
  have c: "example_init_completes ?ws = ?ws\<lparr>wasmInstance := Some example_instance\<rparr>"
    by (rule example_init_completes_eq) (rule example_prepare_uninitialized)
  have i: "wasmInstance (example_init_completes ?ws) = Some example_instance" by (simp add: c)
  have h: "heap (example_init_completes ?ws) = heap ?ws" by (simp add: c)
  have u: "(1::nat) < length (heap example_world_uninitialized)"
    "length (deref example_world_uninitialized 1) = 8"
    by (simp_all add: example_world_uninitialized_def deref_def example_uuid_def)
  have dl: "\<forall>x. length (example_digest x) = 20" by (simp add: example_digest_length)
  from recompute_async_ready [where during = example_init_completes and dg = example_digest
      and H = example_signature, OF v(1) v(2) v(3) refl refl i example_engine h u dl refl]
  have r: "fst (recomputeITunesCDBHash_async example_digest example_init_completes 0 1
          example_world_uninitialized) = Inr 0"
    and s: "Uint8Array_slice
      (deref (snd (recomputeITunesCDBHash_async example_digest example_init_completes 0 1
                     example_world_uninitialized)) 0) 0xAB (0xAB + 57) = ?S"
    by simp_all
  have s0: "?S ! 0 = 3" by (simp add: example_signature_def)
  have o0: "Uint8Array_slice (deref example_world_uninitialized 0) 0xAB (0xAB + 57) ! 0 = 0x11"
    by (simp add: Uint8Array_slice_def example_world_uninitialized_def deref_def example_mhbd_def
        mhbd_magic_def nth_append)
  have "?S \<noteq> Uint8Array_slice (deref example_world_uninitialized 0) 0xAB (0xAB + 57)"
  proof
    assume "?S = Uint8Array_slice (deref example_world_uninitialized 0) 0xAB (0xAB + 57)"
    then have "?S ! 0 = Uint8Array_slice (deref example_world_uninitialized 0) 0xAB (0xAB + 57) ! 0"
      by (rule arg_cong)
    then have "(3 :: byte) = 0x11" unfolding s0 o0 .
    then show False by simp
  qed
  then show ?thesis using v(4) r s by simp
qed

text \<open>The amended C10 at the example buffer, whose scheme field held 11 11 before, with an
  \<^verbatim>\<open>initHashAB\<close> that fails while the call is suspended.\<close>

theorem recompute_async_not_atomic_witness:
  "(0::nat) < length (heap example_world_uninitialized) \<and>
   0xAB + 57 \<le> length (deref example_world_uninitialized 0) \<and>
   take 4 (deref example_world_uninitialized 0) = mhbd_magic \<and>
   wasmInstance (example_init_fails (snd (recomputeITunesCDBHash_prepare 0 example_world_uninitialized)))
     = None \<and>
   (0::nat) < length (heap (example_init_fails
                 (snd (recomputeITunesCDBHash_prepare 0 example_world_uninitialized)))) \<and>
   deref (example_init_fails (snd (recomputeITunesCDBHash_prepare 0 example_world_uninitialized))) 0
     = deref (snd (recomputeITunesCDBHash_prepare 0 example_world_uninitialized)) 0 \<and>
   (let run = recomputeITunesCDBHash_async example_digest example_init_fails 0 1
                example_world_uninitialized;
        w' = snd run in
     fst run = Inl NotInitialized \<and>
     Uint8Array_slice (deref w' 0) 0xAB (0xAB + 57)
       = Uint8Array_slice (deref example_world_uninitialized 0) 0xAB (0xAB + 57) \<and>
     Uint8Array_slice (deref w' 0) 0x30 0x32 = [0x03, 0x00] \<and>
     deref w' 0 = (deref example_world_uninitialized 0)[0x30 := 0x03, 0x31 := 0x00])"
proof -
  note v = example_world_uninitialized_valid
  let ?ws = "snd (recomputeITunesCDBHash_prepare 0 example_world_uninitialized)"
  have f: "example_init_fails ?ws = ?ws"
    by (rule example_init_fails_eq) (rule example_prepare_uninitialized)
  have h4: "wasmInstance (example_init_fails ?ws) = None"
    unfolding f by (rule example_prepare_uninitialized)
  have h5: "(0::nat) < length (heap (example_init_fails ?ws))"
    unfolding f by (rule example_prepare_uninitialized)
  have h6: "deref (example_init_fails ?ws) 0 = deref ?ws 0" unfolding f by (rule refl)
  note c = recompute_async_not_atomic [where during = example_init_fails
      and subtle_digest = example_digest and uuid = 1, OF v(1) v(2) v(3) h4 h5 h6]
  show ?thesis by (intro conjI v(1) v(2) v(3) h4 h5 h6 c)
qed

subsection \<open>Building the checksum file\<close>

lemma Math_ceil_div_eq:
  assumes "0 < b"
  shows "Math_ceil_div a b = (a + b - 1) div b"
proof -
  define q where "q = (a + b - 1) div b"
  have dm: "q * b + (a + b - 1) mod b = a + b - 1"
    unfolding q_def by (rule div_mult_mod_eq)
  have "(a + b - 1) mod b < b" using assms by simp
  with dm assms have 1: "a \<le> q * b" and 2: "q * b < a + b" by linarith+
  have r1: "real a \<le> real q * real b"
    using 1 by (metis of_nat_le_iff of_nat_mult)
  have r2: "real q * real b < real a + real b"
    using 2 by (metis of_nat_less_iff of_nat_mult of_nat_add)
  have pos: "0 < real b" using assms by simp
  have "\<lceil>real a / real b\<rceil> = int q"
  proof (rule ceiling_unique)
    show "real_of_int (int q) - 1 < real a / real b"
      using r2 pos by (simp add: field_simps)
    show "real a / real b \<le> real_of_int (int q)"
      using r1 pos by (simp add: field_simps)
  qed
  then show ?thesis by (simp add: Math_ceil_div_def q_def)
qed

lemma numBlocks_eq: "Math_ceil_div n CBK_BLOCK_SIZE = (n + 1023) div 1024"
  by (simp add: Math_ceil_div_eq CBK_BLOCK_SIZE_def)

lemma padded_slice:
  "Uint8Array_slice src (i * 1024) (min (i * 1024 + 1024) (length src))
     @ replicate (1024 - length (Uint8Array_slice src (i * 1024) (min (i * 1024 + 1024) (length src)))) 0
   = paddedBlock_bytes src i"
  by (auto simp: paddedBlock_bytes_def Uint8Array_slice_def min_def max_def)

lemma paddedBlock_bytes_length:
  "length (paddedBlock_bytes src i) = 1024"
  by (auto simp: paddedBlock_bytes_def Uint8Array_slice_def min_def max_def)

lemma padBlock_frame:
  "padBlock block w = (r, w') \<Longrightarrow>
   (\<exists>ys. heap w' = heap w @ ys) \<and> wasmInstance w' = wasmInstance w \<and> console w' = console w"
  by (auto simp: padBlock_def alloc_def assign_def Let_def split: if_splits sum.splits prod.splits)

lemma padBlock_spec:
  assumes "block < length (heap w)"
  shows "\<exists>p w' ys. padBlock block w = (Inr p, w') \<and> heap w' = heap w @ ys \<and> p < length (heap w') \<and>
           heap w' ! p = heap w ! block @ replicate (1024 - length (heap w ! block)) 0 \<and>
           wasmInstance w' = wasmInstance w \<and> console w' = console w"
proof (cases "length (deref w block) < CBK_BLOCK_SIZE")
  case True
  then show ?thesis
    using assms
    by (simp add: padBlock_def alloc_def assign_def deref_def Let_def Uint8Array_new_def
        Uint8Array_set_def CBK_BLOCK_SIZE_def nth_append)
next
  case False
  then show ?thesis
    using assms by (simp add: padBlock_def deref_def CBK_BLOCK_SIZE_def)
qed

lemma blockHash_frame:
  assumes "blockHash dg ld i w = (r, w')"
  shows "(\<exists>ys. heap w' = heap w @ ys) \<and> wasmInstance w' = wasmInstance w \<and> console w' = console w"
proof -
  let ?b = "Uint8Array_slice (deref w ld) (i * CBK_BLOCK_SIZE)
      (min (i * CBK_BLOCK_SIZE + CBK_BLOCK_SIZE) (length (deref w ld)))"
  let ?w1 = "w\<lparr>heap := heap w @ [?b]\<rparr>"
  obtain r2 w2 where p: "padBlock (length (heap w)) ?w1 = (r2, w2)"
    by (cases "padBlock (length (heap w)) ?w1")
  from padBlock_frame [OF p] obtain ys where h2: "heap w2 = heap w @ ([?b] @ ys)"
    and o2: "wasmInstance w2 = wasmInstance w" "console w2 = console w" by auto
  show ?thesis
    using assms p h2 o2
    by (cases r2) (auto simp: blockHash_def Let_def alloc_def sha1_def)
qed

lemma blockHash_spec:
  assumes "ld < length (heap w)"
  shows "\<exists>h w' ys. blockHash dg ld i w = (Inr h, w') \<and> heap w' = heap w @ ys \<and>
           length (heap w) \<le> h \<and> h < length (heap w') \<and>
           heap w' ! h = dg (paddedBlock_bytes (heap w ! ld) i) \<and>
           wasmInstance w' = wasmInstance w \<and> console w' = console w"
proof -
  let ?b = "Uint8Array_slice (heap w ! ld) (i * 1024) (min (i * 1024 + 1024) (length (heap w ! ld)))"
  let ?w1 = "w\<lparr>heap := heap w @ [?b]\<rparr>"
  have "length (heap w) < length (heap ?w1)" by simp
  from padBlock_spec [OF this]
  obtain p w2 ys where p: "padBlock (length (heap w)) ?w1 = (Inr p, w2)"
    and h2: "heap w2 = heap ?w1 @ ys" and pl: "p < length (heap w2)"
    and pc: "heap w2 ! p = heap ?w1 ! (length (heap w)) @ replicate (1024 - length (heap ?w1 ! (length (heap w)))) 0"
    and o2: "wasmInstance w2 = wasmInstance ?w1" "console w2 = console ?w1"
    by blast
  have pc': "heap w2 ! p = paddedBlock_bytes (heap w ! ld) i"
    using pc by (simp add: padded_slice)
  have "blockHash dg ld i w = (Inr (length (heap w2)), w2\<lparr>heap := heap w2 @ [dg (heap w2 ! p)]\<rparr>)"
    using p by (simp add: blockHash_def Let_def alloc_def sha1_def deref_def CBK_BLOCK_SIZE_def)
  then show ?thesis
    using h2 pc' o2 by (auto simp: nth_append)
qed

lemma blockHashes_loop_frame:
  "blockHashes_loop dg ld n i acc w = (r, w') \<Longrightarrow>
   (\<exists>ys. heap w' = heap w @ ys) \<and> wasmInstance w' = wasmInstance w \<and> console w' = console w"
proof (induction "n - i" arbitrary: i acc w)
  case 0
  then have "\<not> i < n" by simp
  with "0.prems" show ?case by (subst (asm) blockHashes_loop.simps) simp
next
  case (Suc k)
  then have lt: "i < n" by simp
  obtain r1 w1 where b: "blockHash dg ld i w = (r1, w1)" by (cases "blockHash dg ld i w")
  from blockHash_frame [OF b] obtain ys1 where h1: "heap w1 = heap w @ ys1"
    and o1: "wasmInstance w1 = wasmInstance w" "console w1 = console w" by blast
  show ?case
  proof (cases r1)
    case (Inl e)
    with Suc.prems lt b have "w' = w1" by (subst (asm) blockHashes_loop.simps) simp
    then show ?thesis using h1 o1 by simp
  next
    case (Inr h)
    with Suc.prems lt b have rec: "blockHashes_loop dg ld n (Suc i) (acc @ [h]) w1 = (r, w')"
      by (subst (asm) blockHashes_loop.simps) simp
    have "k = n - Suc i" using Suc.hyps(2) by simp
    from Suc.hyps(1) [OF this rec] show ?thesis using h1 o1 by auto
  qed
qed

lemma blockHashes_loop_spec:
  assumes "ld < length (heap w)"
  shows "\<exists>hs w' ys. blockHashes_loop dg ld n i acc w = (Inr (acc @ hs), w') \<and>
           heap w' = heap w @ ys \<and> length hs = n - i \<and>
           wasmInstance w' = wasmInstance w \<and> console w' = console w \<and>
           (\<forall>j<n - i. length (heap w) \<le> hs ! j \<and> hs ! j < length (heap w') \<and>
                       heap w' ! (hs ! j) = dg (paddedBlock_bytes (heap w ! ld) (i + j)))"
  using assms
proof (induction "n - i" arbitrary: i acc w)
  case 0
  then have "\<not> i < n" by simp
  then have "blockHashes_loop dg ld n i acc w = (Inr (acc @ []), w)"
    by (subst blockHashes_loop.simps) simp
  then show ?case using 0 by (intro exI [of _ "[]"] exI [of _ w]) simp
next
  case (Suc k)
  then have lt: "i < n" by simp
  from blockHash_spec [OF Suc.prems, of dg i]
  obtain h w1 ys1 where b: "blockHash dg ld i w = (Inr h, w1)"
    and h1: "heap w1 = heap w @ ys1" and hl: "length (heap w) \<le> h" "h < length (heap w1)"
    and hc: "heap w1 ! h = dg (paddedBlock_bytes (heap w ! ld) i)"
    and o1: "wasmInstance w1 = wasmInstance w" "console w1 = console w"
    by blast
  have ld1: "ld < length (heap w1)" using Suc.prems by (simp add: h1)
  have src1: "heap w1 ! ld = heap w ! ld" using Suc.prems by (simp add: h1 nth_append)
  have k: "k = n - Suc i" using Suc.hyps(2) by simp
  from Suc.hyps(1) [OF k ld1, of "acc @ [h]"]
  obtain hs w' ys where rec: "blockHashes_loop dg ld n (Suc i) (acc @ [h]) w1 = (Inr ((acc @ [h]) @ hs), w')"
    and h': "heap w' = heap w1 @ ys" and lhs: "length hs = n - Suc i"
    and o': "wasmInstance w' = wasmInstance w1" "console w' = console w1"
    and c': "\<forall>j<n - Suc i. length (heap w1) \<le> hs ! j \<and> hs ! j < length (heap w') \<and>
                heap w' ! (hs ! j) = dg (paddedBlock_bytes (heap w1 ! ld) (Suc i + j))"
    by blast
  have res: "blockHashes_loop dg ld n i acc w = (Inr (acc @ (h # hs)), w')"
    using lt b rec by (subst blockHashes_loop.simps) simp
  have cont: "\<forall>j<n - i. length (heap w) \<le> (h # hs) ! j \<and> (h # hs) ! j < length (heap w') \<and>
                heap w' ! ((h # hs) ! j) = dg (paddedBlock_bytes (heap w ! ld) (i + j))"
  proof (intro allI impI)
    fix j assume j: "j < n - i"
    show "length (heap w) \<le> (h # hs) ! j \<and> (h # hs) ! j < length (heap w') \<and>
                heap w' ! ((h # hs) ! j) = dg (paddedBlock_bytes (heap w ! ld) (i + j))"
    proof (cases j)
      case 0
      then show ?thesis using hl hc by (simp add: h' nth_append)
    next
      case (Suc j')
      with j have "j' < n - Suc i" by simp
      with c' have "length (heap w1) \<le> hs ! j' \<and> hs ! j' < length (heap w') \<and>
                heap w' ! (hs ! j') = dg (paddedBlock_bytes (heap w1 ! ld) (Suc i + j'))"
        by blast
      moreover have "length (heap w) \<le> length (heap w1)" by (simp add: h1)
      ultimately show ?thesis using Suc unfolding src1 by simp
    qed
  qed
  show ?case
    using res cont lhs lt h' h1 o' o1
    by (intro exI [of _ "h # hs"] exI [of _ w'] exI [of _ "ys1 @ ys"]) simp
qed

lemma allHashes_loop_frame:
  "allHashes_loop a hs n i w = (r, w') \<Longrightarrow>
   (\<exists>x. heap w' = (heap w)[a := x]) \<and> wasmInstance w' = wasmInstance w \<and> console w' = console w"
proof (induction "n - i" arbitrary: i w)
  case 0
  then have "\<not> i < n" by simp
  with "0.prems" have "w' = w" by (subst (asm) allHashes_loop.simps) simp
  then show ?case by (metis list_update_id)
next
  case (Suc k)
  then have lt: "i < n" by simp
  show ?case
  proof (cases "Uint8Array_set (deref w a) (deref w (hs ! i)) (i * CBK_SHA1_SIZE)")
    case (Inl e)
    with Suc.prems lt have "w' = w" by (subst (asm) allHashes_loop.simps) simp
    then show ?thesis by (metis list_update_id)
  next
    case (Inr written)
    with Suc.prems lt have rec: "allHashes_loop a hs n (Suc i) (assign a written w) = (r, w')"
      by (subst (asm) allHashes_loop.simps) simp
    have "k = n - Suc i" using Suc.hyps(2) by simp
    from Suc.hyps(1) [OF this rec] show ?thesis by (auto simp: assign_def)
  qed
qed

lemma length_concat_digests:
  "(\<And>j. j \<in> set js \<Longrightarrow> length (D j) = 20) \<Longrightarrow> length (concat (map D js)) = 20 * length js"
  by (induction js) simp_all

lemma allHashes_loop_spec:
  assumes "a < length (heap w)"
    and "\<forall>j<n. hs ! j \<noteq> a \<and> length (heap w ! (hs ! j)) = 20"
    and "i \<le> n"
    and "heap w ! a = A @ replicate (20 * (n - i)) 0" and "length A = 20 * i"
  shows "\<exists>w'. allHashes_loop a hs n i w = (Inr (), w') \<and>
           heap w' = (heap w)[a := A @ concat (map (\<lambda>j. heap w ! (hs ! j)) [i..<n])] \<and>
           wasmInstance w' = wasmInstance w \<and> console w' = console w"
  using assms
proof (induction "n - i" arbitrary: i w A)
  case 0
  then have "i = n" by simp
  then have "allHashes_loop a hs n i w = (Inr (), w)"
    by (subst allHashes_loop.simps) simp
  moreover have "(heap w)[a := A @ concat (map (\<lambda>j. heap w ! (hs ! j)) [i..<n])] = heap w"
    using "0.prems"(4) \<open>i = n\<close> by (simp add: list_update_same_conv "0.prems"(1))
  ultimately show ?case by simp
next
  case (Suc k)
  then have lt: "i < n" by simp
  let ?D = "heap w ! (hs ! i)"
  have lD: "length ?D = 20" and ne: "hs ! i \<noteq> a" using Suc.prems(2) lt by simp_all
  have rep: "replicate (20 * (n - i)) (0::byte) = replicate 20 0 @ replicate (20 * (n - Suc i)) 0"
  proof -
    have "20 * (n - i) = 20 + 20 * (n - Suc i)" using lt by simp
    then show ?thesis by (simp only: replicate_add)
  qed
  have set: "Uint8Array_set (deref w a) (deref w (hs ! i)) (i * CBK_SHA1_SIZE)
      = Inr (A @ ?D @ replicate (20 * (n - Suc i)) 0)"
    using lD Suc.prems(5) lt
    by (simp add: Uint8Array_set_def deref_def Suc.prems(4) CBK_SHA1_SIZE_def rep)
  let ?w1 = "assign a (A @ ?D @ replicate (20 * (n - Suc i)) 0) w"
  have step: "allHashes_loop a hs n i w = allHashes_loop a hs n (Suc i) ?w1"
    using lt set by (subst allHashes_loop.simps) simp
  have k: "k = n - Suc i" using Suc.hyps(2) by simp
  have p1: "a < length (heap ?w1)" using Suc.prems(1) by (simp add: assign_def)
  have same: "\<And>j. j < n \<Longrightarrow> heap ?w1 ! (hs ! j) = heap w ! (hs ! j)"
    using Suc.prems(2) by (auto simp: assign_def)
  have p2: "\<forall>j<n. hs ! j \<noteq> a \<and> length (heap ?w1 ! (hs ! j)) = 20"
    using Suc.prems(2) same by simp
  have p3: "Suc i \<le> n" using lt by simp
  have p4: "heap ?w1 ! a = (A @ ?D) @ replicate (20 * (n - Suc i)) 0"
    using Suc.prems(1) by (simp add: assign_def)
  have p5: "length (A @ ?D) = 20 * Suc i" using Suc.prems(5) lD by simp
  from Suc.hyps(1) [OF k p1 p2 p3 p4 p5]
  obtain w' where rec: "allHashes_loop a hs n (Suc i) ?w1 = (Inr (), w')"
    and h': "heap w' = (heap ?w1)[a := (A @ ?D) @ concat (map (\<lambda>j. heap ?w1 ! (hs ! j)) [Suc i..<n])]"
    and o': "wasmInstance w' = wasmInstance ?w1" "console w' = console ?w1"
    by blast
  have eq: "map (\<lambda>j. heap ?w1 ! (hs ! j)) [Suc i..<n] = map (\<lambda>j. heap w ! (hs ! j)) [Suc i..<n]"
    by (rule map_cong) (simp_all add: same)
  have "[i..<n] = i # [Suc i..<n]" using lt by (rule upt_conv_Cons)
  then have "concat (map (\<lambda>j. heap w ! (hs ! j)) [i..<n])
      = ?D @ concat (map (\<lambda>j. heap w ! (hs ! j)) [Suc i..<n])"
    by simp
  then have "(A @ ?D) @ concat (map (\<lambda>j. heap ?w1 ! (hs ! j)) [Suc i..<n])
      = A @ concat (map (\<lambda>j. heap w ! (hs ! j)) [i..<n])"
    by (simp only: eq append_assoc)
  then have "heap w' = (heap w)[a := A @ concat (map (\<lambda>j. heap w ! (hs ! j)) [i..<n])]"
    using h' by (simp add: assign_def)
  then show ?case using step rec o' by (simp add: assign_def)
qed

lemma fill_cbk_frame:
  assumes "fill_cbk cbk sig m a w = (r, w')"
  shows "(\<exists>x. heap w' = (heap w)[cbk := x] \<and> length x = length (heap w ! cbk)) \<and>
         wasmInstance w' = wasmInstance w \<and> console w' = console w"
proof (cases "cbk < length (heap w)")
  case False
  then have "\<And>x. (heap w)[cbk := x] = heap w" by (simp add: list_update_beyond)
  then show ?thesis
    using assms False
    by (auto simp: fill_cbk_def assign_def Let_def split: sum.splits)
next
  case True
  have id: "heap w = (heap w)[cbk := heap w ! cbk]" by simp
  show ?thesis
  proof (cases "Uint8Array_set (deref w cbk) (deref w sig) 0")
    case (Inl e)
    with assms have "w' = w" by (simp add: fill_cbk_def)
    then show ?thesis by (intro conjI exI [of _ "heap w ! cbk"]) simp_all
  next
    case c1: (Inr c1)
    let ?w1 = "assign cbk c1 w"
    have l1: "length c1 = length (heap w ! cbk)"
      using Uint8Array_set_length [OF c1] by (simp add: deref_def)
    have d1: "deref ?w1 cbk = c1" using True by (simp add: assign_def deref_def)
    show ?thesis
    proof (cases "Uint8Array_set (deref ?w1 cbk) (deref ?w1 m) CBK_HEADER_SIZE")
      case (Inl e)
      with assms c1 have "w' = ?w1" by (simp add: fill_cbk_def Let_def)
      then show ?thesis using l1 by (auto simp: assign_def)
    next
      case c2: (Inr c2)
      let ?w2 = "assign cbk c2 ?w1"
      have l2: "length c2 = length (heap w ! cbk)"
        using Uint8Array_set_length [OF c2] l1 by (simp add: d1)
      have d2: "deref ?w2 cbk = c2" using True by (simp add: assign_def deref_def)
      show ?thesis
      proof (cases "Uint8Array_set (deref ?w2 cbk) (deref ?w2 a) (CBK_HEADER_SIZE + CBK_SHA1_SIZE)")
        case (Inl e)
        with assms c1 c2 have "w' = ?w2" by (simp add: fill_cbk_def Let_def)
        then show ?thesis using l2 by (auto simp: assign_def)
      next
        case c3: (Inr c3)
        have l3: "length c3 = length (heap w ! cbk)"
          using Uint8Array_set_length [OF c3] l2 by (simp add: d2)
        from assms c1 c2 c3 have "w' = assign cbk c3 ?w2" by (simp add: fill_cbk_def Let_def)
        then show ?thesis using l3 by (auto simp: assign_def)
      qed
    qed
  qed
qed

lemma fill_cbk_spec:
  assumes "cbk < length (heap w)" and "sig \<noteq> cbk" and "m \<noteq> cbk" and "a \<noteq> cbk"
    and "heap w ! cbk = replicate (57 + 20 + L) 0"
    and "length (heap w ! sig) = 57" and "length (heap w ! m) = 20" and "length (heap w ! a) = L"
  shows "\<exists>w'. fill_cbk cbk sig m a w = (Inr (), w') \<and>
           heap w' = (heap w)[cbk := heap w ! sig @ heap w ! m @ heap w ! a] \<and>
           wasmInstance w' = wasmInstance w \<and> console w' = console w"
proof -
  let ?S = "heap w ! sig" and ?M = "heap w ! m" and ?A = "heap w ! a"
  have c1: "Uint8Array_set (deref w cbk) (deref w sig) 0 = Inr (?S @ replicate (20 + L) 0)"
    using assms(6) by (simp add: Uint8Array_set_def deref_def assms(5))
  let ?w1 = "assign cbk (?S @ replicate (20 + L) 0) w"
  have d1: "deref ?w1 cbk = ?S @ replicate (20 + L) 0" "deref ?w1 m = ?M"
    using assms(1,3) by (simp_all add: assign_def deref_def)
  have c2: "Uint8Array_set (deref ?w1 cbk) (deref ?w1 m) CBK_HEADER_SIZE
      = Inr (?S @ ?M @ replicate L 0)"
    using assms(6,7) unfolding d1 by (simp add: Uint8Array_set_def CBK_HEADER_SIZE_def)
  let ?w2 = "assign cbk (?S @ ?M @ replicate L 0) ?w1"
  have d2: "deref ?w2 cbk = ?S @ ?M @ replicate L 0" "deref ?w2 a = ?A"
    using assms(1,4) by (simp_all add: assign_def deref_def)
  have c3: "Uint8Array_set (deref ?w2 cbk) (deref ?w2 a) (CBK_HEADER_SIZE + CBK_SHA1_SIZE)
      = Inr (?S @ ?M @ ?A)"
    using assms(6,7,8) unfolding d2
    by (simp add: Uint8Array_set_def CBK_HEADER_SIZE_def CBK_SHA1_SIZE_def)
  have "fill_cbk cbk sig m a w = (Inr (), assign cbk (?S @ ?M @ ?A) ?w2)"
    unfolding fill_cbk_def by (simp only: c1 c2 c3 Let_def sum.case)
  then show ?thesis by (simp add: assign_def)
qed

lemma computeLocationsCBK_shape:
  assumes "computeLocationsCBK dg ld uuid w = (r, w')"
  shows "(\<exists>ys. heap w' = heap w @ ys) \<and>
         (\<forall>cbk. r = Inr cbk \<longrightarrow>
            length (heap w) \<le> cbk \<and> cbk < length (heap w') \<and>
            length (heap w' ! cbk)
              = 57 + 20 + Math_ceil_div (length (deref w ld)) CBK_BLOCK_SIZE * 20)"
proof -
  let ?n = "Math_ceil_div (length (deref w ld)) CBK_BLOCK_SIZE"
  obtain r1 w1 where s1: "blockHashes_loop dg ld ?n 0 [] w = (r1, w1)"
    by (cases "blockHashes_loop dg ld ?n 0 [] w")
  from blockHashes_loop_frame [OF s1] obtain ys1 where h1: "heap w1 = heap w @ ys1" by blast
  show ?thesis
  proof (cases r1)
    case (Inl e)
    with assms s1 have "r = Inl e" "w' = w1" by (simp_all add: computeLocationsCBK_def Let_def)
    then show ?thesis using h1 by simp
  next
    case r1: (Inr hs)
    let ?a = "length (heap w1)"
    let ?w2 = "w1\<lparr>heap := heap w1 @ [Uint8Array_new (?n * CBK_SHA1_SIZE)]\<rparr>"
    obtain r3 w3 where s3: "allHashes_loop ?a hs ?n 0 ?w2 = (r3, w3)"
      by (cases "allHashes_loop ?a hs ?n 0 ?w2")
    from allHashes_loop_frame [OF s3] obtain x where h3: "heap w3 = heap w1 @ [x]" by auto
    show ?thesis
    proof (cases r3)
      case (Inl e)
      with assms s1 r1 s3 have "r = Inl e" "w' = w3"
        by (simp_all add: computeLocationsCBK_def Let_def alloc_def)
      then show ?thesis using h1 h3 by simp
    next
      case r3: (Inr u)
      let ?m = "length (heap w3)"
      let ?w4 = "w3\<lparr>heap := heap w3 @ [dg (deref w3 ?a)]\<rparr>"
      obtain r5 w5 where s5: "calcHashAB ?m uuid ?w4 = (r5, w5)"
        by (cases "calcHashAB ?m uuid ?w4")
      from calcHashAB_frame [OF s5] obtain ys5 where h5: "heap w5 = heap ?w4 @ ys5" by blast
      show ?thesis
      proof (cases r5)
        case (Inl e)
        with assms s1 r1 s3 r3 s5 have "r = Inl e" "w' = w5"
          by (simp_all add: computeLocationsCBK_def Let_def alloc_def sha1_def)
        then show ?thesis using h1 h3 h5 by simp
      next
        case r5: (Inr sig)
        let ?size = "CBK_HEADER_SIZE + CBK_SHA1_SIZE + ?n * CBK_SHA1_SIZE"
        let ?cbk = "length (heap w5)"
        let ?w6 = "w5\<lparr>heap := heap w5 @ [Uint8Array_new ?size]\<rparr>"
        obtain r7 w7 where s7: "fill_cbk ?cbk sig ?m ?a ?w6 = (r7, w7)"
          by (cases "fill_cbk ?cbk sig ?m ?a ?w6")
        from fill_cbk_frame [OF s7] obtain y where h7: "heap w7 = heap w5 @ [y]"
          and ly: "length y = ?size"
          by (auto simp: Uint8Array_new_def)
        show ?thesis
        proof (cases r7)
          case (Inl e)
          with assms s1 r1 s3 r3 s5 r5 s7 have "r = Inl e" "w' = w7"
            by (simp_all add: computeLocationsCBK_def Let_def alloc_def sha1_def)
          then show ?thesis using h1 h3 h5 h7 by simp
        next
          case r7: (Inr u')
          from assms s1 r1 s3 r3 s5 r5 s7 r7 have "r = Inr ?cbk"
            and "heap w' = heap w7 @ [Uint8Array_slice (deref w7 sig) 0 4]"
            by (auto simp: computeLocationsCBK_def Let_def alloc_def sha1_def console_log_def)
          then show ?thesis
            using h1 h3 h5 h7 ly
            by (simp add: nth_append CBK_HEADER_SIZE_def CBK_SHA1_SIZE_def)
        qed
      qed
    qed
  qed
qed

lemma alloc_facts:
  assumes "alloc bytes w = (r, w')"
  shows "r = length (heap w)" and "heap w' = heap w @ [bytes]"
    and "wasmInstance w' = wasmInstance w" and "console w' = console w"
  using assms by (auto simp: alloc_def)

lemma computeLocationsCBK_spec:
  assumes ld: "ld < length (heap w)" and uu: "uuid < length (heap w)"
    and lu: "length (deref w uuid) = 8"
    and inst: "wasmInstance w = Some inst" and eng: "engine_computes inst H"
    and dl: "\<forall>x. length (dg x) = 20"
    and A: "A = concat (map (\<lambda>i. dg (paddedBlock_bytes (deref w ld) i))
                  [0..<Math_ceil_div (length (deref w ld)) CBK_BLOCK_SIZE])"
  shows "\<exists>cbk w'. computeLocationsCBK dg ld uuid w = (Inr cbk, w') \<and>
           deref w' cbk = H (dg A) (deref w uuid) @ dg A @ A \<and>
           length (H (dg A) (deref w uuid)) = 57"
proof -
  let ?n = "Math_ceil_div (length (deref w ld)) CBK_BLOCK_SIZE"
  let ?D = "\<lambda>i. dg (paddedBlock_bytes (deref w ld) i)"
  from blockHashes_loop_spec [OF ld, of dg ?n 0 "[]"]
  obtain hs w1 ys1 where s1: "blockHashes_loop dg ld ?n 0 [] w = (Inr hs, w1)"
    and h1: "heap w1 = heap w @ ys1" and lhs: "length hs = ?n"
    and o1: "wasmInstance w1 = wasmInstance w"
    and c1: "\<forall>j<?n. length (heap w) \<le> hs ! j \<and> hs ! j < length (heap w1) \<and>
                heap w1 ! (hs ! j) = ?D j"
    by (auto simp: deref_def)
  obtain a w2 where s2: "alloc (Uint8Array_new (?n * CBK_SHA1_SIZE)) w1 = (a, w2)"
    by (cases "alloc (Uint8Array_new (?n * CBK_SHA1_SIZE)) w1")
  note f2 = alloc_facts [OF s2]
  have a2: "a < length (heap w2)" by (simp add: f2)
  have hs2: "\<forall>j<?n. hs ! j \<noteq> a \<and> length (heap w2 ! (hs ! j)) = 20"
    using c1 dl by (auto simp: f2 nth_append)
  have z2: "heap w2 ! a = [] @ replicate (20 * (?n - 0)) 0"
    by (simp add: f2 Uint8Array_new_def CBK_SHA1_SIZE_def mult.commute)
  from allHashes_loop_spec [OF a2 hs2 _ z2]
  obtain w3 where s3: "allHashes_loop a hs ?n 0 w2 = (Inr (), w3)"
    and h3: "heap w3 = (heap w2)[a := [] @ concat (map (\<lambda>j. heap w2 ! (hs ! j)) [0..<?n])]"
    and o3: "wasmInstance w3 = wasmInstance w2"
    by auto
  have eq: "map (\<lambda>j. heap w2 ! (hs ! j)) [0..<?n] = map ?D [0..<?n]"
    using c1 by (intro map_cong) (auto simp: f2 nth_append)
  have "heap w3 = (heap w2)[a := A]"
    unfolding h3 eq A by simp
  then have h3': "heap w3 = heap w1 @ [A]"
    by (simp add: f2)
  have lA: "length A = ?n * 20"
    using dl by (simp add: A length_concat_digests)
  obtain m w4 where s4: "sha1 dg a w3 = (m, w4)" by (cases "sha1 dg a w3")
  have f4: "m = Suc (length (heap w1))" "heap w4 = heap w1 @ [A, dg A]"
    "wasmInstance w4 = wasmInstance w3"
    using s4 by (auto simp: sha1_def alloc_def deref_def h3' f2)
  have i4: "wasmInstance w4 = Some inst" by (simp add: f4 o3 f2 o1 inst)
  have m4: "deref w4 m = dg A" by (simp add: deref_def f4 nth_append)
  have u4: "deref w4 uuid = deref w uuid" using uu by (simp add: deref_def f4 h1 nth_append)
  have lm4: "length (deref w4 m) = 20" using dl by (simp add: m4)
  have lu4: "length (deref w4 uuid) = 8" using lu by (simp add: u4)
  from calcHashAB_ready [OF i4 eng lm4 lu4]
  obtain w5 where s5: "calcHashAB m uuid w4 = (Inr (Suc (length (heap w4))), w5)"
    and h5: "heap w5 = heap w4 @ [H (dg A) (deref w uuid), H (dg A) (deref w uuid)]"
    and lS: "length (H (dg A) (deref w uuid)) = 57"
    unfolding m4 u4 by blast
  let ?S = "H (dg A) (deref w uuid)"
  let ?sig = "Suc (length (heap w4))"
  let ?size = "CBK_HEADER_SIZE + CBK_SHA1_SIZE + ?n * CBK_SHA1_SIZE"
  obtain cbk w6 where s6: "alloc (Uint8Array_new ?size) w5 = (cbk, w6)"
    by (cases "alloc (Uint8Array_new ?size) w5")
  note f6 = alloc_facts [OF s6]
  have p1: "cbk < length (heap w6)" by (simp add: f6)
  have p2: "?sig \<noteq> cbk" "m \<noteq> cbk" "a \<noteq> cbk" by (simp_all add: f6 h5 f4 f2)
  have p3: "heap w6 ! cbk = replicate (57 + 20 + ?n * 20) 0"
    by (simp add: f6 Uint8Array_new_def CBK_HEADER_SIZE_def CBK_SHA1_SIZE_def)
  have g6: "heap w6 ! ?sig = ?S" "heap w6 ! m = dg A" "heap w6 ! a = A"
    by (simp_all add: f6 h5 f4 f2 nth_append)
  have p4: "length (heap w6 ! ?sig) = 57" "length (heap w6 ! m) = 20" "length (heap w6 ! a) = ?n * 20"
    using lS dl lA by (simp_all only: g6)
  from fill_cbk_spec [OF p1 p2 p3 p4]
  obtain w7 where s7: "fill_cbk cbk ?sig m a w6 = (Inr (), w7)"
    and h7: "heap w7 = (heap w6)[cbk := ?S @ dg A @ A]"
    unfolding g6 by blast
  obtain sig4 w8 where s8: "alloc (Uint8Array_slice (deref w7 ?sig) 0 4) w7 = (sig4, w8)"
    by (cases "alloc (Uint8Array_slice (deref w7 ?sig) 0 4) w7")
  note f8 = alloc_facts [OF s8]
  have res: "computeLocationsCBK dg ld uuid w =
      (Inr cbk, console_log
         (''[hashAB] Computed Locations.itdb.cbk: '' @ decimal ?size
          @ '' bytes, '' @ decimal ?n
          @ '' blocks, master SHA1: '' @ hex (deref w8 m)
          @ '', sig[0:4]: '' @ hex (deref w8 sig4)) w8)"
    unfolding computeLocationsCBK_def
    by (simp only: Let_def s1 s2 s3 s4 s5 s6 s7 s8 prod.case sum.case)
  have "deref (console_log
         (''[hashAB] Computed Locations.itdb.cbk: '' @ decimal ?size
          @ '' bytes, '' @ decimal ?n
          @ '' blocks, master SHA1: '' @ hex (deref w8 m)
          @ '', sig[0:4]: '' @ hex (deref w8 sig4)) w8) cbk = ?S @ dg A @ A"
    using p1 by (simp add: console_log_def deref_def f8 h7 nth_append)
  with res lS show ?thesis by blast
qed

lemma upt_split: "i < n \<Longrightarrow> [0..<n] = [0..<i] @ i # [Suc i..<n]"
proof -
  assume a: "i < n"
  then have "[0..<n] = [0..<i] @ [i..<n]"
    using upt_add_eq_append [of 0 i "n - i"] by simp
  also have "[i..<n] = i # [Suc i..<n]" using a by (rule upt_conv_Cons)
  finally show ?thesis .
qed

lemma concat_digests_slice:
  assumes "\<forall>j. length (D j) = 20" and "i < n"
  shows "take 20 (drop (20 * i) (concat (map D [0..<n]))) = D i"
proof -
  have "concat (map D [0..<n]) = concat (map D [0..<i]) @ D i @ concat (map D [Suc i..<n])"
    by (simp add: upt_split [OF assms(2)])
  moreover have "length (concat (map D [0..<i])) = 20 * i"
    using assms(1) by (simp add: length_concat_digests)
  ultimately show ?thesis using assms(1) by simp
qed

lemma numBlocks_cases:
  "Math_ceil_div len 1024 = (if len mod 1024 = 0 then len div 1024 else Suc (len div 1024))"
proof -
  define q r where "q = len div 1024" and "r = len mod 1024"
  have len: "len = q * 1024 + r" and r: "r < 1024" by (simp_all add: q_def r_def)
  have "(len + 1023) div 1024 = (if r = 0 then q else Suc q)"
  proof (cases "r = 0")
    case True
    then have "len + 1023 = 1023 + q * 1024" using len by simp
    then have "(len + 1023) div 1024 = q + 1023 div 1024" by (simp only: div_mult_self1)
    then have "(len + 1023) div 1024 = q" by simp
    then show ?thesis using True by simp
  next
    case False
    then have "len + 1023 = (r - 1) + Suc q * 1024" using len by simp
    then have "(len + 1023) div 1024 = Suc q + (r - 1) div 1024" by (simp only: div_mult_self1)
    then show ?thesis using False r by simp
  qed
  moreover have "Math_ceil_div len 1024 = (len + 1023) div 1024"
    by (simp add: Math_ceil_div_eq)
  ultimately show ?thesis by (simp only: q_def r_def)
qed

lemma numBlocks_full_block:
  assumes "i < Math_ceil_div len 1024"
  shows "i * 1024 < len"
    and "((i + 1) * 1024 \<le> len) = (\<not> (Suc i = Math_ceil_div len 1024 \<and> len mod 1024 \<noteq> 0))"
proof -
  define q r where "q = len div 1024" and "r = len mod 1024"
  have len: "len = q * 1024 + r" and r: "r < 1024" by (simp_all add: q_def r_def)
  have n: "Math_ceil_div len 1024 = (if r = 0 then q else Suc q)"
    by (simp add: numBlocks_cases q_def r_def)
  have full: "((i + 1) * 1024 \<le> len) = (Suc i \<le> q)"
  proof
    assume "(i + 1) * 1024 \<le> len"
    then have "(i + 1) * 1024 div 1024 \<le> len div 1024" by (rule div_le_mono)
    then show "Suc i \<le> q" by (simp add: q_def)
  next
    assume "Suc i \<le> q"
    then have "Suc i * 1024 \<le> q * 1024" by simp
    then show "(i + 1) * 1024 \<le> len" using len by simp
  qed
  show "i * 1024 < len"
  proof (cases "r = 0")
    case True
    with assms n have "Suc i \<le> q" by simp
    then have "Suc i * 1024 \<le> q * 1024" by simp
    then show ?thesis using len by simp
  next
    case False
    with assms n have "i \<le> q" by simp
    then have "i * 1024 \<le> q * 1024" by simp
    then show ?thesis using len False by simp
  qed
  show "((i + 1) * 1024 \<le> len) = (\<not> (Suc i = Math_ceil_div len 1024 \<and> len mod 1024 \<noteq> 0))"
    using assms unfolding full n r_def [symmetric] by (cases "r = 0") auto
qed

lemma example_world_locations_valid:
  "(0::nat) < length (heap example_world_locations)"
  "(1::nat) < length (heap example_world_locations)"
  "(2::nat) < length (heap example_world_locations)"
  "length (deref example_world_locations 1) = 8"
  "wasmInstance example_world_locations = Some example_instance"
  "deref example_world_locations 0 = example_locations"
  "deref example_world_locations 2 = []"
  by (simp_all add: example_world_locations_def deref_def example_uuid_def)

text \<open>
  Claim C2. Whenever \<^verbatim>\<open>computeLocationsCBK\<close> returns a buffer, its length is
  \<open>77 + 20 * ceil(len(source) / 1024)\<close>, and 77 for an empty source; and it does return
  one when the instance computes a signature function, the device identifier has 8 bytes
  and the digest has 20.
\<close>

theorem computeLocationsCBK_length:
  "(\<forall>cbk w'. computeLocationsCBK subtle_digest locationsData uuid w = (Inr cbk, w') \<longrightarrow>
      length (deref w' cbk) = 77 + 20 * nat \<lceil>real (length (deref w locationsData)) / 1024\<rceil> \<and>
      (deref w locationsData = [] \<longrightarrow> length (deref w' cbk) = 77)) \<and>
   (locationsData < length (heap w) \<and> uuid < length (heap w) \<and> length (deref w uuid) = 8 \<and>
    wasmInstance w = Some inst \<and> engine_computes inst H \<and> (\<forall>x. length (subtle_digest x) = 20) \<longrightarrow>
      (\<exists>cbk w'. computeLocationsCBK subtle_digest locationsData uuid w = (Inr cbk, w')))"
proof (intro conjI allI impI)
  fix cbk w' assume run: "computeLocationsCBK subtle_digest locationsData uuid w = (Inr cbk, w')"
  from computeLocationsCBK_shape [OF run]
  have "length (heap w' ! cbk) = 57 + 20 + Math_ceil_div (length (deref w locationsData)) CBK_BLOCK_SIZE * 20"
    by blast
  then show l: "length (deref w' cbk) = 77 + 20 * nat \<lceil>real (length (deref w locationsData)) / 1024\<rceil>"
    by (simp add: deref_def Math_ceil_div_def CBK_BLOCK_SIZE_def)
  assume "deref w locationsData = []"
  with l show "length (deref w' cbk) = 77" by simp
next
  assume "locationsData < length (heap w) \<and> uuid < length (heap w) \<and> length (deref w uuid) = 8 \<and>
    wasmInstance w = Some inst \<and> engine_computes inst H \<and> (\<forall>x. length (subtle_digest x) = 20)"
  then show "\<exists>cbk w'. computeLocationsCBK subtle_digest locationsData uuid w = (Inr cbk, w')"
    using computeLocationsCBK_spec [of locationsData w uuid inst H subtle_digest, OF _ _ _ _ _ _ refl]
    by blast
qed

text \<open>C2 at a source of 1025 bytes (117 bytes come back) and at the empty source (77).\<close>

theorem computeLocationsCBK_length_witness:
  "(\<exists>cbk w'. computeLocationsCBK example_digest 0 1 example_world_locations = (Inr cbk, w') \<and>
      length (deref example_world_locations 0) = 1025 \<and> length (deref w' cbk) = 117) \<and>
   (\<exists>cbk w'. computeLocationsCBK example_digest 2 1 example_world_locations = (Inr cbk, w') \<and>
      deref example_world_locations 2 = [] \<and> length (deref w' cbk) = 77)"
proof -
  note v = example_world_locations_valid
  have dl: "\<forall>x. length (example_digest x) = 20" by (simp add: example_digest_length)
  note t0 = computeLocationsCBK_length [of example_digest 0 1 example_world_locations
      example_instance example_signature]
  note t2 = computeLocationsCBK_length [of example_digest 2 1 example_world_locations
      example_instance example_signature]
  from t0 v example_engine dl
  obtain cbk0 w0 where r0: "computeLocationsCBK example_digest 0 1 example_world_locations = (Inr cbk0, w0)"
    by blast
  with t0 have "length (deref w0 cbk0)
      = 77 + 20 * nat \<lceil>real (length (deref example_world_locations 0)) / 1024\<rceil>"
    by blast
  then have l0: "length (deref w0 cbk0) = 117"
    by (simp add: v example_locations_def)
  from t2 v example_engine dl
  obtain cbk2 w2 where r2: "computeLocationsCBK example_digest 2 1 example_world_locations = (Inr cbk2, w2)"
    by blast
  with t2 v(7) have l2: "length (deref w2 cbk2) = 77" by blast
  show ?thesis using r0 l0 r2 l2 v(6,7) by (simp add: example_locations_def)
qed

text \<open>
  Claim C3. With the engine ready, digest number i of the file returned (the 20 bytes at
  \<open>77 + 20 * i\<close>) is the digest of the bytes from \<open>i * 1024\<close> up to \<open>(i + 1) * 1024\<close> of the
  source when the source has that many, and else of the bytes up to the end followed by
  zero bytes up to 1024. A block is digested without padding exactly when it is not the
  last block of a source whose length is not a multiple of 1024: no block is padded when
  the length is a multiple of 1024, and only the last one is otherwise.
\<close>

theorem computeLocationsCBK_block_digests:
  assumes "locationsData < length (heap w)" and "uuid < length (heap w)"
    and "length (deref w uuid) = 8"
    and "wasmInstance w = Some inst" and "engine_computes inst H"
    and "\<forall>x. length (subtle_digest x) = 20"
  shows "\<exists>cbk w'. computeLocationsCBK subtle_digest locationsData uuid w = (Inr cbk, w') \<and>
     (\<forall>i<Math_ceil_div (length (deref w locationsData)) 1024.
        Uint8Array_slice (deref w' cbk) (77 + 20 * i) (77 + 20 * i + 20)
          = subtle_digest
              (if (i + 1) * 1024 \<le> length (deref w locationsData)
               then Uint8Array_slice (deref w locationsData) (i * 1024) ((i + 1) * 1024)
               else Uint8Array_slice (deref w locationsData) (i * 1024) (length (deref w locationsData))
                      @ replicate ((i + 1) * 1024 - length (deref w locationsData)) 0) \<and>
        ((i + 1) * 1024 \<le> length (deref w locationsData))
          = (\<not> (Suc i = Math_ceil_div (length (deref w locationsData)) 1024 \<and>
                length (deref w locationsData) mod 1024 \<noteq> 0)))"
proof -
  let ?src = "deref w locationsData"
  let ?n = "Math_ceil_div (length ?src) 1024"
  let ?D = "\<lambda>i. subtle_digest (paddedBlock_bytes ?src i)"
  define A where "A = concat (map ?D [0..<Math_ceil_div (length ?src) CBK_BLOCK_SIZE])"
  have A': "A = concat (map ?D [0..<?n])" by (simp add: A_def CBK_BLOCK_SIZE_def)
  from computeLocationsCBK_spec [OF assms A_def]
  obtain cbk w' where run: "computeLocationsCBK subtle_digest locationsData uuid w = (Inr cbk, w')"
    and c: "deref w' cbk = H (subtle_digest A) (deref w uuid) @ subtle_digest A @ A"
    and lS: "length (H (subtle_digest A) (deref w uuid)) = 57"
    by blast
  have lM: "length (subtle_digest A) = 20" using assms(6) by simp
  have lD: "\<forall>j. length (?D j) = 20" using assms(6) by simp
  have "\<forall>i<?n. Uint8Array_slice (deref w' cbk) (77 + 20 * i) (77 + 20 * i + 20)
          = subtle_digest
              (if (i + 1) * 1024 \<le> length ?src
               then Uint8Array_slice ?src (i * 1024) ((i + 1) * 1024)
               else Uint8Array_slice ?src (i * 1024) (length ?src)
                      @ replicate ((i + 1) * 1024 - length ?src) 0) \<and>
        ((i + 1) * 1024 \<le> length ?src) = (\<not> (Suc i = ?n \<and> length ?src mod 1024 \<noteq> 0))"
  proof (intro allI impI conjI)
    fix i assume i: "i < ?n"
    have "Uint8Array_slice (deref w' cbk) (77 + 20 * i) (77 + 20 * i + 20)
        = take 20 (drop (20 * i) A)"
      using lS lM by (simp add: c Uint8Array_slice_def)
    also have "\<dots> = ?D i" unfolding A' using lD i by (rule concat_digests_slice)
    also have "paddedBlock_bytes ?src i
        = (if (i + 1) * 1024 \<le> length ?src
           then Uint8Array_slice ?src (i * 1024) ((i + 1) * 1024)
           else Uint8Array_slice ?src (i * 1024) (length ?src)
                  @ replicate ((i + 1) * 1024 - length ?src) 0)"
      using numBlocks_full_block(1) [OF i] by (simp add: paddedBlock_bytes_def max_def)
    finally show "Uint8Array_slice (deref w' cbk) (77 + 20 * i) (77 + 20 * i + 20)
          = subtle_digest
              (if (i + 1) * 1024 \<le> length ?src
               then Uint8Array_slice ?src (i * 1024) ((i + 1) * 1024)
               else Uint8Array_slice ?src (i * 1024) (length ?src)
                      @ replicate ((i + 1) * 1024 - length ?src) 0)" .
    show "((i + 1) * 1024 \<le> length ?src) = (\<not> (Suc i = ?n \<and> length ?src mod 1024 \<noteq> 0))"
      by (rule numBlocks_full_block(2) [OF i])
  qed
  with run show ?thesis by blast
qed

text \<open>C3 at a source of 1025 bytes 0x22: the first digest is that of 1024 bytes 0x22, the
  second that of one byte 0x22 followed by 1023 zero bytes.\<close>

theorem computeLocationsCBK_block_digests_witness:
  "(0::nat) < length (heap example_world_locations) \<and>
   (1::nat) < length (heap example_world_locations) \<and>
   length (deref example_world_locations 1) = 8 \<and>
   wasmInstance example_world_locations = Some example_instance \<and>
   engine_computes example_instance example_signature \<and>
   (\<forall>x. length (example_digest x) = 20) \<and>
   (\<exists>cbk w'. computeLocationsCBK example_digest 0 1 example_world_locations = (Inr cbk, w') \<and>
      Uint8Array_slice (deref w' cbk) 77 97 = example_digest (replicate 1024 0x22) \<and>
      Uint8Array_slice (deref w' cbk) 97 117 = example_digest (0x22 # replicate 1023 0))"
proof -
  note v = example_world_locations_valid
  have dl: "\<forall>x. length (example_digest x) = 20" by (simp add: example_digest_length)
  have n: "Math_ceil_div (length (deref example_world_locations 0)) 1024 = 2"
    by (simp add: v example_locations_def Math_ceil_div_eq)
  from computeLocationsCBK_block_digests [OF v(1) v(2) v(4) v(5) example_engine dl]
  obtain cbk w' where run: "computeLocationsCBK example_digest 0 1 example_world_locations = (Inr cbk, w')"
    and c: "\<And>i. i < 2 \<Longrightarrow>
        Uint8Array_slice (deref w' cbk) (77 + 20 * i) (77 + 20 * i + 20)
          = example_digest
              (if (i + 1) * 1024 \<le> length (deref example_world_locations 0)
               then Uint8Array_slice (deref example_world_locations 0) (i * 1024) ((i + 1) * 1024)
               else Uint8Array_slice (deref example_world_locations 0) (i * 1024)
                      (length (deref example_world_locations 0))
                      @ replicate ((i + 1) * 1024 - length (deref example_world_locations 0)) 0)"
    unfolding n by blast
  have b0: "Uint8Array_slice (deref w' cbk) 77 97 = example_digest (replicate 1024 0x22)"
    using c [of 0] by (simp add: v example_locations_def Uint8Array_slice_def)
  have "drop 1024 (replicate 1025 (0x22 :: byte)) = [0x22]" by simp
  then have b1: "Uint8Array_slice (deref w' cbk) 97 117 = example_digest (0x22 # replicate 1023 0)"
    using c [of 1] by (simp add: v example_locations_def Uint8Array_slice_def)
  show ?thesis using v(1) v(2) v(4) v(5) example_engine dl run b0 b1 by blast
qed

text \<open>
  Claim C7. Whatever the outcome of \<^verbatim>\<open>computeLocationsCBK\<close>, every array that existed
  before the call has its bytes unchanged after it, the source among them, and a buffer
  returned is at a reference that did not exist before the call: it is newly allocated.
\<close>

theorem computeLocationsCBK_no_mutation:
  "let run = computeLocationsCBK subtle_digest locationsData uuid w; w' = snd run in
     take (length (heap w)) (heap w') = heap w \<and>
     (locationsData < length (heap w) \<longrightarrow> deref w' locationsData = deref w locationsData) \<and>
     (\<forall>cbk. fst run = Inr cbk \<longrightarrow> length (heap w) \<le> cbk \<and> cbk < length (heap w'))"
proof -
  obtain r w' where run: "computeLocationsCBK subtle_digest locationsData uuid w = (r, w')"
    by (cases "computeLocationsCBK subtle_digest locationsData uuid w")
  from computeLocationsCBK_shape [OF run]
  obtain ys where h: "heap w' = heap w @ ys"
    and f: "\<forall>cbk. r = Inr cbk \<longrightarrow> length (heap w) \<le> cbk \<and> cbk < length (heap w')"
    by blast
  show ?thesis
    unfolding Let_def run fst_conv snd_conv using f by (simp add: h deref_def nth_append)
qed

text \<open>C7 at the source of 1025 bytes, where a buffer is returned.\<close>

theorem computeLocationsCBK_no_mutation_witness:
  "(0::nat) < length (heap example_world_locations) \<and>
   (let run = computeLocationsCBK example_digest 0 1 example_world_locations; w' = snd run in
      take (length (heap example_world_locations)) (heap w') = heap example_world_locations \<and>
      deref w' 0 = deref example_world_locations 0 \<and>
      (\<exists>cbk. fst run = Inr cbk \<and> length (heap example_world_locations) \<le> cbk \<and>
             cbk < length (heap w')))"
proof -
  note v = example_world_locations_valid
  have dl: "\<forall>x. length (example_digest x) = 20" by (simp add: example_digest_length)
  from computeLocationsCBK_spec [OF v(1) v(2) v(4) v(5) example_engine dl refl]
  obtain cbk where "fst (computeLocationsCBK example_digest 0 1 example_world_locations) = Inr cbk"
    by auto
  with computeLocationsCBK_no_mutation [of example_digest 0 1 example_world_locations] v(1)
  show ?thesis unfolding Let_def by blast
qed

end
